theory Spec2Isabelle
  imports Complex_Main
begin

section \<open>Error recovery: withRetry (RETAILERS.md, "Error Recovery")\<close>

text \<open>
  \<^verbatim>\<open>
  async function withRetry<T>(
    fn: () => Promise<T>,
    maxAttempts: number = 3,
    delayMs: number = 1000
  ): Promise<T> {
    let lastError: Error;

    for (let attempt = 1; attempt <= maxAttempts; attempt++) {
      try {
        return await fn();
      } catch (error) {
        lastError = error;
        console.log(`Attempt ${attempt} failed: ${error.message}`);

        if (attempt < maxAttempts) {
          await new Promise(r => setTimeout(r, delayMs * attempt));
        }
      }
    }

    throw lastError;
  }
  \<close>
  The callback \<open>fn\<close> is impure, so its outcome is indexed by the attempt at which it is
  invoked: \<open>fn k\<close> is \<open>Inr v\<close> when the invocation of attempt \<open>k\<close> resolves and
  \<open>Inl r\<close> when it rejects. A promise may reject with any value: with \<open>null\<close>, with
  \<open>undefined\<close>, or with a value whose \<open>message\<close> can be read (an \<open>Error\<close>, as a
  rule). The \<open>catch\<close> block reads \<open>error.message\<close> for its log line, which throws a
  \<open>TypeError\<close> on \<open>null\<close> and \<open>undefined\<close>; nothing catches it, so it ends the
  run. \<open>lastError\<close> is \<open>undefined\<close> until the first assignment. Attempt numbers and
  millisecond delays are integers. The run records the attempt numbers at which \<open>fn\<close>
  was invoked, the delays handed to \<open>setTimeout\<close> and the attempts logged with their
  errors, in order.
\<close>

datatype 'e rejection = RejectedNull | RejectedUndefined | Rejected 'e

datatype 'e thrown = TypeError | Thrown "'e rejection"

record ('e, 'a) RetryRun =
  outcome :: "'e thrown + 'a"
  calls :: "int list"
  delays :: "int list"
  logged :: "(int \<times> 'e) list"

function withRetry_loop ::
  "(int \<Rightarrow> 'e rejection + 'a) \<Rightarrow> int \<Rightarrow> int \<Rightarrow> int \<Rightarrow> 'e rejection
     \<Rightarrow> int list \<Rightarrow> int list \<Rightarrow> (int \<times> 'e) list \<Rightarrow> ('e, 'a) RetryRun" where
  "withRetry_loop fn maxAttempts delayMs attempt lastError cs ds lg =
     (if attempt \<le> maxAttempts then
        (case fn attempt of
           Inr v \<Rightarrow> \<lparr>outcome = Inr v, calls = cs @ [attempt], delays = ds, logged = lg\<rparr>
         | Inl error \<Rightarrow>
             (case error of
                RejectedNull \<Rightarrow>
                  \<lparr>outcome = Inl TypeError, calls = cs @ [attempt], delays = ds, logged = lg\<rparr>
              | RejectedUndefined \<Rightarrow>
                  \<lparr>outcome = Inl TypeError, calls = cs @ [attempt], delays = ds, logged = lg\<rparr>
              | Rejected e \<Rightarrow>
                  withRetry_loop fn maxAttempts delayMs (attempt + 1) error (cs @ [attempt])
                    (if attempt < maxAttempts then ds @ [delayMs * attempt] else ds)
                    (lg @ [(attempt, e)])))
      else \<lparr>outcome = Inl (Thrown lastError), calls = cs, delays = ds, logged = lg\<rparr>)"
  by pat_completeness auto
termination
  by (relation "measure (\<lambda>(fn, maxAttempts, delayMs, attempt, lastError, cs, ds, lg).
        nat (maxAttempts + 1 - attempt))") auto

definition withRetry :: "(int \<Rightarrow> 'e rejection + 'a) \<Rightarrow> int \<Rightarrow> int \<Rightarrow> ('e, 'a) RetryRun" where
  "withRetry fn maxAttempts delayMs =
     withRetry_loop fn maxAttempts delayMs 1 RejectedUndefined [] [] []"

section \<open>Proxy pools (proxy strategy guide)\<close>

text \<open>
  \<open>ProxyConfig\<close> as declared for the proxy pool (the variant with an \<open>id\<close>):
  \<^verbatim>\<open>
  interface ProxyConfig {
    id: string; type: 'residential' | 'isp' | 'datacenter';
    host: string; port: number; username?: string; password?: string;
    location: string; lastUsed?: Date; failureCount: number;
    status: 'active' | 'banned' | 'cooldown';
  }
  \<close>
  Dates are millisecond timestamps. The fields \<open>id\<close> and \<open>type\<close> carry a suffix.
\<close>

datatype ProxyType = residential | isp | datacenter

datatype ProxyStatus = active | banned | cooldown

record ProxyConfig =
  id_of :: string
  type_of :: ProxyType
  host :: string
  port :: int
  username :: "string option"
  password :: "string option"
  location :: string
  lastUsed :: "int option"
  failureCount :: int
  status :: ProxyStatus

subsection \<open>Per-request rotation\<close>

text \<open>
  \<^verbatim>\<open>
  class RotatingProxyPool {
    private proxies: ProxyConfig[];
    private currentIndex = 0;
    getNext(): ProxyConfig {
      const proxy = this.proxies[this.currentIndex];
      this.currentIndex = (this.currentIndex + 1) % this.proxies.length;
      return proxy;
    }
  }
  \<close>
  Reading an array out of range yields \<open>undefined\<close> (\<open>None\<close>). With an empty array
  the remainder is taken modulo zero and the index becomes \<open>NaN\<close>, written \<open>None\<close>;
  it stays \<open>NaN\<close> from then on. The field \<open>proxies\<close> holds an array, as its type
  says (the class shows no constructor). The class has no other method: nothing records
  who holds a proxy and nothing gives one back.
\<close>

record RotatingProxyPool =
  proxies :: "ProxyConfig list"
  currentIndex :: "nat option"

definition newRotatingProxyPool :: "ProxyConfig list \<Rightarrow> RotatingProxyPool" where
  "newRotatingProxyPool ps = \<lparr>proxies = ps, currentIndex = Some 0\<rparr>"

definition getNext :: "RotatingProxyPool \<Rightarrow> ProxyConfig option \<times> RotatingProxyPool" where
  "getNext this =
     (case currentIndex this of
        None \<Rightarrow> (None, this)
      | Some i \<Rightarrow>
          (if i < length (proxies this) then Some (proxies this ! i) else None,
           this\<lparr>currentIndex :=
                  (if length (proxies this) = 0 then None
                   else Some ((i + 1) mod length (proxies this)))\<rparr>))"

text \<open>
  JavaScript runs each call to completion, so concurrent callers reach the pool as a
  sequence of calls. \<open>getNext_calls n\<close> is \<open>n\<close> calls in a row: the proxies handed
  out, in order, and the pool afterwards.
\<close>

fun getNext_calls :: "nat \<Rightarrow> RotatingProxyPool \<Rightarrow> ProxyConfig option list \<times> RotatingProxyPool" where
  "getNext_calls 0 this = ([], this)"
| "getNext_calls (Suc n) this =
     (let (proxy, this') = getNext this;
          (rest, this'') = getNext_calls n this'
      in (proxy # rest, this''))"

subsection \<open>Proxy health\<close>

text \<open>
  \<^verbatim>\<open>
  isProxyHealthy(proxyId: string): boolean {
    const health = this.healthMap.get(proxyId);
    if (!health) return true; // Assume healthy if never checked
    return health.working && health.consecutiveFailures < 3 && health.latency < 5000;
  }
  \<close>
\<close>

record ProxyHealth =
  proxyId :: string
  latency :: int
  working :: bool
  lastChecked :: int
  consecutiveFailures :: int

definition isProxyHealthy :: "(string \<rightharpoonup> ProxyHealth) \<Rightarrow> string \<Rightarrow> bool" where
  "isProxyHealthy healthMap pid =
     (case healthMap pid of
        None \<Rightarrow> True
      | Some health \<Rightarrow> working health \<and> consecutiveFailures health < 3 \<and> latency health < 5000)"

subsection \<open>Ban detection\<close>

text \<open>
  \<^verbatim>\<open>
  class BanDetector {
    private bannedProxies: Map<string, { retailer: string; until: Date }[]> = new Map();
    markAsBanned(proxyId: string, retailer: string, durationMs: number = 3600000) {
      const bans = this.bannedProxies.get(proxyId) || [];
      bans.push({ retailer, until: new Date(Date.now() + durationMs) });
      this.bannedProxies.set(proxyId, bans);
    }
    isBannedFor(proxyId: string, retailer: string): boolean {
      const bans = this.bannedProxies.get(proxyId) || [];
      return bans.some(ban => ban.retailer === retailer && ban.until > new Date());
    }
    getAvailableProxy(retailer: string): ProxyConfig | null {
      for (const proxy of this.pool.getAll()) {
        if (!this.isBannedFor(proxy.id, retailer) && this.healthChecker.isProxyHealthy(proxy.id)) {
          return proxy;
        }
      }
      return null;
    }
  }
  \<close>
  The clock is a parameter: \<open>now\<close> is what \<open>Date.now()\<close> and \<open>new Date()\<close> read
  during the call, in integer milliseconds. A \<open>Date\<close> built from a time value beyond
  \<open>\<plusminus>8.64e15\<close> is an invalid date (\<open>None\<close>), and every comparison with it
  is false. \<open>this.pool.getAll()\<close> and \<open>this.healthChecker\<close> are fields the class
  uses without declaring them: the list of all proxies and the health checker's map.
\<close>

definition new_Date :: "int \<Rightarrow> int option" where
  "new_Date tv = (if \<bar>tv\<bar> \<le> 8640000000000000 then Some tv else None)"

record Ban =
  retailer :: string
  until :: "int option"

record BanDetector =
  bannedProxies :: "string \<rightharpoonup> Ban list"
  pool_getAll :: "ProxyConfig list"
  healthChecker :: "string \<rightharpoonup> ProxyHealth"

definition markAsBanned :: "BanDetector \<Rightarrow> string \<Rightarrow> string \<Rightarrow> int \<Rightarrow> int \<Rightarrow> BanDetector" where
  "markAsBanned this pid r durationMs now =
     (let bans = (case bannedProxies this pid of None \<Rightarrow> [] | Some bs \<Rightarrow> bs);
          bans' = bans @ [\<lparr>retailer = r, until = new_Date (now + durationMs)\<rparr>]
      in this\<lparr>bannedProxies := (bannedProxies this)(pid \<mapsto> bans')\<rparr>)"

definition isBannedFor :: "BanDetector \<Rightarrow> string \<Rightarrow> string \<Rightarrow> int \<Rightarrow> bool" where
  "isBannedFor this pid r now =
     (let bans = (case bannedProxies this pid of None \<Rightarrow> [] | Some bs \<Rightarrow> bs)
      in list_ex (\<lambda>ban. retailer ban = r \<and>
                          (case until ban of None \<Rightarrow> False | Some u \<Rightarrow> u > now)) bans)"

fun getAvailableProxy_loop ::
  "BanDetector \<Rightarrow> string \<Rightarrow> int \<Rightarrow> ProxyConfig list \<Rightarrow> ProxyConfig option" where
  "getAvailableProxy_loop this r now [] = None"
| "getAvailableProxy_loop this r now (proxy # rest) =
     (if \<not> isBannedFor this (id_of proxy) r now \<and>
         isProxyHealthy (healthChecker this) (id_of proxy)
      then Some proxy
      else getAvailableProxy_loop this r now rest)"

definition getAvailableProxy :: "BanDetector \<Rightarrow> string \<Rightarrow> int \<Rightarrow> ProxyConfig option" where
  "getAvailableProxy this r now = getAvailableProxy_loop this r now (pool_getAll this)"

text \<open>
  Later calls of \<open>markAsBanned\<close>, each with its own arguments and clock reading; the
  class has no operation that removes a ban.
\<close>

fun markAsBanned_calls :: "BanDetector \<Rightarrow> (string \<times> string \<times> int \<times> int) list \<Rightarrow> BanDetector" where
  "markAsBanned_calls this [] = this"
| "markAsBanned_calls this ((pid, r, durationMs, now) # rest) =
     markAsBanned_calls (markAsBanned this pid r durationMs now) rest"

section \<open>Stock monitoring\<close>

text \<open>A thrown JavaScript \<open>Error\<close> with its message.\<close>

datatype Error = Error string

subsection \<open>monitorStock (RETAILERS.md, "Stock Monitoring")\<close>

text \<open>
  \<^verbatim>\<open>
  async function monitorStock(module, page, productUrl, checkInterval = 5000) {
    while (true) {
      const status = await module.checkStock(page, productUrl);
      if (status.inStock) { return status; }
      // Add jitter to interval
      const jitter = Math.random() * 2000 - 1000;
      await new Promise(r => setTimeout(r, checkInterval + jitter));
    }
  }
  \<close>
  The retailer module and the random source are the environment: \<open>checkStock k\<close> is
  the outcome of the \<open>k\<close>-th call of \<open>module.checkStock\<close> (counted from 0), rejected
  or resolved with a status, and \<open>random k\<close> is what the \<open>k\<close>-th call of
  \<open>Math.random()\<close> returns, a number in \<open>[0, 1)\<close>. Numbers are reals. The loop has
  no exit of its own, so it is a partial function: \<open>None\<close> is a run that never
  returns. A run that returns gives its result and the delays it handed to
  \<open>setTimeout\<close>, in order.
\<close>

record StockStatus =
  inStock :: bool

partial_function (option) monitorStock_loop ::
  "(nat \<Rightarrow> Error + StockStatus) \<Rightarrow> (nat \<Rightarrow> real) \<Rightarrow> real \<Rightarrow> nat \<Rightarrow> real list
     \<Rightarrow> ((Error + StockStatus) \<times> real list) option" where
  "monitorStock_loop checkStock random checkInterval k waited =
     (case checkStock k of
        Inl e \<Rightarrow> Some (Inl e, waited)
      | Inr st \<Rightarrow>
          if inStock st then Some (Inr st, waited)
          else monitorStock_loop checkStock random checkInterval (Suc k)
                 (waited @ [checkInterval + (random k * 2000 - 1000)]))"

declare monitorStock_loop.simps [code]

definition monitorStock ::
  "(nat \<Rightarrow> Error + StockStatus) \<Rightarrow> (nat \<Rightarrow> real) \<Rightarrow> real
     \<Rightarrow> ((Error + StockStatus) \<times> real list) option" where
  "monitorStock checkStock random checkInterval =
     monitorStock_loop checkStock random checkInterval 0 []"

subsection \<open>The monitoring loop of test-costco.ts\<close>

text \<open>
  \<^verbatim>\<open>
  let checkCount = 0;
  while (true) {
    checkCount++;
    const { inStock, buttonText } = await checkStock(page, CONFIG.targetUrl);
    if (inStock) {
      await notify(`... ITEM IN STOCK! ${CONFIG.targetUrl}`, true);
      await page.screenshot({ path: `./screenshots/in-stock-${Date.now()}.png` });
      const addedToCart = await addToCart(page);
      if (addedToCart) {
        const checkoutReady = await checkout(page);
        if (checkoutReady) {
          await page.waitForTimeout(300000); // 5 minutes
        }
      }
    } else {
      process.stdout.write(`   Out of stock. Next check in ...`);
    }
    // Wait before next check
    await page.waitForTimeout(CONFIG.checkIntervalMs);
  }
  \<close>
  The browser is the environment: each field of \<open>MonitorWorld\<close> gives the outcome, thrown
  or returned, of one awaited call in the iteration with the given check number.
  \<open>notify\<close> has no throwing path (see below) and each call of it is taken to return
  here, so it is an event only. An iteration
  yields its events and the error that ended it, if any; the loop itself has no
  \<open>break\<close> and no \<open>return\<close>, so it ends only when a call throws.
  \<open>monitor_iterations\<close> runs a given number of iterations and answers \<open>None\<close> in the
  second component when the loop is still running after them.
\<close>

datatype MonitorEvent =
    StockChecked nat bool
  | Notified bool
  | Screenshot
  | AddToCart bool
  | Checkout bool
  | Waited int

record MonitorWorld =
  checkStock_at :: "nat \<Rightarrow> Error + bool"
  screenshot_at :: "nat \<Rightarrow> Error + unit"
  addToCart_at :: "nat \<Rightarrow> Error + bool"
  checkout_at :: "nat \<Rightarrow> Error + bool"
  keepOpen_at :: "nat \<Rightarrow> Error + unit"
  waitForTimeout_at :: "nat \<Rightarrow> Error + unit"

definition in_stock_branch :: "MonitorWorld \<Rightarrow> nat \<Rightarrow> MonitorEvent list \<times> Error option" where
  "in_stock_branch w k =
     (case screenshot_at w k of
        Inl e \<Rightarrow> ([Notified True], Some e)
      | Inr _ \<Rightarrow>
          (case addToCart_at w k of
             Inl e \<Rightarrow> ([Notified True, Screenshot], Some e)
           | Inr addedToCart \<Rightarrow>
               if addedToCart then
                 (case checkout_at w k of
                    Inl e \<Rightarrow> ([Notified True, Screenshot, AddToCart True], Some e)
                  | Inr checkoutReady \<Rightarrow>
                      if checkoutReady then
                        (case keepOpen_at w k of
                           Inl e \<Rightarrow>
                             ([Notified True, Screenshot, AddToCart True, Checkout True], Some e)
                         | Inr _ \<Rightarrow>
                             ([Notified True, Screenshot, AddToCart True, Checkout True,
                               Waited 300000], None))
                      else ([Notified True, Screenshot, AddToCart True, Checkout False], None))
               else ([Notified True, Screenshot, AddToCart False], None)))"

definition monitor_iteration ::
  "MonitorWorld \<Rightarrow> int \<Rightarrow> nat \<Rightarrow> MonitorEvent list \<times> Error option" where
  "monitor_iteration w checkIntervalMs k =
     (case checkStock_at w k of
        Inl e \<Rightarrow> ([], Some e)
      | Inr in_stock \<Rightarrow>
          (case (if in_stock then in_stock_branch w k else ([], None)) of
             (evs, Some e) \<Rightarrow> (StockChecked k in_stock # evs, Some e)
           | (evs, None) \<Rightarrow>
               (case waitForTimeout_at w k of
                  Inl e \<Rightarrow> (StockChecked k in_stock # evs, Some e)
                | Inr _ \<Rightarrow> (StockChecked k in_stock # evs @ [Waited checkIntervalMs], None))))"

fun monitor_iterations ::
  "MonitorWorld \<Rightarrow> int \<Rightarrow> nat \<Rightarrow> nat \<Rightarrow> MonitorEvent list \<times> Error option" where
  "monitor_iterations w checkIntervalMs checkCount 0 = ([], None)"
| "monitor_iterations w checkIntervalMs checkCount (Suc n) =
     (case monitor_iteration w checkIntervalMs (Suc checkCount) of
        (evs, Some e) \<Rightarrow> (evs, Some e)
      | (evs, None) \<Rightarrow>
          (case monitor_iterations w checkIntervalMs (Suc checkCount) n of
             (evs', r) \<Rightarrow> (evs @ evs', r)))"

section \<open>Notifications: notify (test-costco.ts)\<close>

text \<open>
  \<^verbatim>\<open>
  async function notify(message: string, urgent: boolean = false) {
    console.log(`<megaphone> ${message}`);

    if (CONFIG.discordWebhook) {
      try {
        await fetch(CONFIG.discordWebhook, {
          method: 'POST',
          headers: { 'Content-Type': 'application/json' },
          body: JSON.stringify({
            content: urgent ? `@everyone <siren> ${message}` : message,
          }),
        });
      } catch (e) {
        console.error('Failed to send Discord notification');
      }
    }
  }
  \<close>
  The two emoji of the source are written as their UTF-8 bytes. \<open>fetch\<close> is the
  environment. The function awaits it, with no timeout of its own: the request either
  settles after some milliseconds, rejected with an error or fulfilled with a response
  that the function ignores, or it never settles. A call of \<open>notify\<close> that never
  returns is \<open>None\<close>. One that returns gives \<open>Inl\<close> for a rejection and otherwise the
  console lines written, the requests sent and the time for which it was suspended on
  the request.
\<close>

definition megaphone :: string where
  "megaphone = [CHR 0xF0, CHR 0x9F, CHR 0x93, CHR 0xA2]"

definition siren :: string where
  "siren = [CHR 0xF0, CHR 0x9F, CHR 0x9A, CHR 0xA8]"

datatype ConsoleLine = console_log string | console_error string

record FetchRequest =
  url :: string
  http_method :: string
  content :: string

datatype FetchOutcome = Settles nat "Error + unit" | NeverSettles

record NotifyEffects =
  console :: "ConsoleLine list"
  requests :: "FetchRequest list"
  suspended_ms :: nat

definition notify ::
  "string \<Rightarrow> (FetchRequest \<Rightarrow> FetchOutcome) \<Rightarrow> string \<Rightarrow> bool
     \<Rightarrow> (Error + NotifyEffects) option" where
  "notify discordWebhook fetch message urgent =
     (let out = [console_log (megaphone @ '' '' @ message)] in
      if discordWebhook \<noteq> [] then
        (let req = \<lparr>url = discordWebhook, http_method = ''POST'',
                     content = (if urgent then ''@everyone '' @ siren @ '' '' @ message
                                else message)\<rparr>
         in case fetch req of
              NeverSettles \<Rightarrow> None
            | Settles t (Inr _) \<Rightarrow>
                Some (Inr \<lparr>console = out, requests = [req], suspended_ms = t\<rparr>)
            | Settles t (Inl e) \<Rightarrow>
                Some (Inr \<lparr>console = out @ [console_error ''Failed to send Discord notification''],
                           requests = [req], suspended_ms = t\<rparr>))
      else Some (Inr \<lparr>console = out, requests = [], suspended_ms = 0\<rparr>))"

text \<open>
  Every caller awaits \<open>notify\<close>. The in-stock branch of the monitoring loop begins
  \<^verbatim>\<open>
  await notify(`... ITEM IN STOCK! ${CONFIG.targetUrl}`, true);
  await page.screenshot({ path: `./screenshots/in-stock-${Date.now()}.png` });
  const addedToCart = await addToCart(page);
  \<close>
  so the screenshot and the add-to-cart of \<open>in_stock_branch\<close> run once that call has
  returned: the branch with its first statement spelled out, given what the call of
  \<open>notify\<close> does.
\<close>

definition in_stock_branch_after_notify ::
  "(Error + NotifyEffects) option \<Rightarrow> MonitorWorld \<Rightarrow> nat
     \<Rightarrow> (MonitorEvent list \<times> Error option) option" where
  "in_stock_branch_after_notify notified w k =
     (case notified of
        None \<Rightarrow> None
      | Some (Inl e) \<Rightarrow> Some ([], Some e)
      | Some (Inr _) \<Rightarrow> Some (in_stock_branch w k))"

section \<open>The browser launcher (src/browser/launcher.ts)\<close>

text \<open>
  \<^verbatim>\<open>
  let browser: Browser | null = null;
  let context: BrowserContext | null = null;
  let page: Page | null = null;

  export async function getPage(): Promise<Page> {
    if (!page) {
      throw new Error('Browser not launched. Call launchBrowser() first.');
    }
    return page;
  }
  \<close>
  The three module variables are the launcher's state; Playwright's handles are numbers.
  Playwright, the file system and the JavaScript runtime are the environment: each field
  of \<open>Runtime\<close> is the outcome, thrown or returned, of one external call.
  \<open>page_work tool args page\<close> stands for everything a page tool of the server does
  with the page once \<open>getPage\<close> has returned it (the Playwright and human.ts calls and
  the result object built from what they return).
\<close>

datatype number = NaN | NegInf | Fin real | PosInf

datatype json =
    JUndefined
  | JNull
  | JBool bool
  | JNum number
  | JStr string
  | JArr "json list"
  | JObj "(string \<times> json) list"

record LauncherState =
  browser_var :: "nat option"
  context_var :: "nat option"
  page_var :: "nat option"

definition initial_state :: LauncherState where
  "initial_state = \<lparr>browser_var = None, context_var = None, page_var = None\<rparr>"

record Runtime =
  chromium_launch :: "Error + nat"
  browser_newContext :: "Error + nat"
  context_addInitScript :: "Error + unit"
  context_newPage :: "Error + nat"
  page_close :: "Error + unit"
  context_close :: "Error + unit"
  browser_close :: "Error + unit"
  context_cookies :: "Error + json"
  fs_writeFile :: "Error + unit"
  fs_readFile :: "Error + string"
  JSON_parse :: "string \<Rightarrow> Error + json"
  context_addCookies :: "Error + unit"
  fs_mkdir :: "Error + unit"
  page_work :: "string \<Rightarrow> (string \<rightharpoonup> json) \<Rightarrow> nat \<Rightarrow> Error + json"
  ToNumber_other :: "json \<Rightarrow> number"
  ToString :: "json \<Rightarrow> string"

definition launchBrowser :: "Runtime \<Rightarrow> LauncherState \<Rightarrow> (Error + nat) \<times> LauncherState" where
  "launchBrowser rt st =
     (case chromium_launch rt of
        Inl e \<Rightarrow> (Inl e, st)
      | Inr b \<Rightarrow>
          (let st1 = st\<lparr>browser_var := Some b\<rparr> in
           case browser_newContext rt of
             Inl e \<Rightarrow> (Inl e, st1)
           | Inr c \<Rightarrow>
               (let st2 = st1\<lparr>context_var := Some c\<rparr> in
                case context_addInitScript rt of
                  Inl e \<Rightarrow> (Inl e, st2)
                | Inr _ \<Rightarrow>
                    (case context_newPage rt of
                       Inl e \<Rightarrow> (Inl e, st2)
                     | Inr p \<Rightarrow> (Inr p, st2\<lparr>page_var := Some p\<rparr>)))))"

definition getPage :: "LauncherState \<Rightarrow> Error + nat" where
  "getPage st =
     (case page_var st of
        None \<Rightarrow> Inl (Error ''Browser not launched. Call launchBrowser() first.'')
      | Some p \<Rightarrow> Inr p)"

text \<open>
  \<^verbatim>\<open>
  export async function closeBrowser(): Promise<void> {
    if (page) await page.close();
    if (context) await context.close();
    if (browser) await browser.close();
    page = null; context = null; browser = null;
  }
  \<close>
\<close>

definition closeBrowser :: "Runtime \<Rightarrow> LauncherState \<Rightarrow> (Error + unit) \<times> LauncherState" where
  "closeBrowser rt st =
     (case (if page_var st \<noteq> None then page_close rt else Inr ()) of
        Inl e \<Rightarrow> (Inl e, st)
      | Inr _ \<Rightarrow>
          (case (if context_var st \<noteq> None then context_close rt else Inr ()) of
             Inl e \<Rightarrow> (Inl e, st)
           | Inr _ \<Rightarrow>
               (case (if browser_var st \<noteq> None then browser_close rt else Inr ()) of
                  Inl e \<Rightarrow> (Inl e, st)
                | Inr _ \<Rightarrow>
                    (Inr (), \<lparr>browser_var = None, context_var = None, page_var = None\<rparr>))))"

text \<open>
  \<^verbatim>\<open>
  export async function saveCookies(filepath: string): Promise<void> {
    if (!context) throw new Error('No browser context');
    const cookies = await context.cookies();
    const fs = await import('fs/promises');
    await fs.writeFile(filepath, JSON.stringify(cookies, null, 2));
  }
  export async function loadCookies(filepath: string): Promise<boolean> {
    if (!context) throw new Error('No browser context');
    try {
      const fs = await import('fs/promises');
      const data = await fs.readFile(filepath, 'utf-8');
      const cookies = JSON.parse(data);
      await context.addCookies(cookies);
      return true;
    } catch {
      return false;
    }
  }
  \<close>
\<close>

definition saveCookies :: "Runtime \<Rightarrow> LauncherState \<Rightarrow> Error + unit" where
  "saveCookies rt st =
     (case context_var st of
        None \<Rightarrow> Inl (Error ''No browser context'')
      | Some c \<Rightarrow>
          (case context_cookies rt of
             Inl e \<Rightarrow> Inl e
           | Inr cookies \<Rightarrow> fs_writeFile rt))"

definition loadCookies :: "Runtime \<Rightarrow> LauncherState \<Rightarrow> Error + bool" where
  "loadCookies rt st =
     (case context_var st of
        None \<Rightarrow> Inl (Error ''No browser context'')
      | Some c \<Rightarrow>
          (case fs_readFile rt of
             Inl e \<Rightarrow> Inr False
           | Inr data \<Rightarrow>
               (case JSON_parse rt data of
                  Inl e \<Rightarrow> Inr False
                | Inr cookies \<Rightarrow>
                    (case context_addCookies rt of
                       Inl e \<Rightarrow> Inr False
                     | Inr _ \<Rightarrow> Inr True))))"

section \<open>The MCP server (src/mcp/server.ts)\<close>

subsection \<open>Numbers\<close>

text \<open>
  \<open>Math.max\<close> and \<open>Math.min\<close> convert their arguments to numbers and answer
  \<open>NaN\<close> as soon as one of them is \<open>NaN\<close>. \<open>ToNumber\<close> is the language's
  conversion on \<open>undefined\<close>, \<open>null\<close>, booleans and numbers; on strings, arrays and
  objects it is the runtime's (\<open>ToNumber_other\<close>).
\<close>

fun Math_max :: "number \<Rightarrow> number \<Rightarrow> number" where
  "Math_max NaN y = NaN"
| "Math_max x NaN = NaN"
| "Math_max PosInf y = PosInf"
| "Math_max x PosInf = PosInf"
| "Math_max NegInf y = y"
| "Math_max x NegInf = x"
| "Math_max (Fin x) (Fin y) = Fin (max x y)"

fun Math_min :: "number \<Rightarrow> number \<Rightarrow> number" where
  "Math_min NaN y = NaN"
| "Math_min x NaN = NaN"
| "Math_min NegInf y = NegInf"
| "Math_min x NegInf = NegInf"
| "Math_min PosInf y = y"
| "Math_min x PosInf = x"
| "Math_min (Fin x) (Fin y) = Fin (min x y)"

fun times_1000 :: "number \<Rightarrow> number" where
  "times_1000 NaN = NaN"
| "times_1000 NegInf = NegInf"
| "times_1000 PosInf = PosInf"
| "times_1000 (Fin x) = Fin (x * 1000)"

fun ToNumber :: "Runtime \<Rightarrow> json \<Rightarrow> number" where
  "ToNumber rt JUndefined = NaN"
| "ToNumber rt JNull = Fin 0"
| "ToNumber rt (JBool b) = (if b then Fin 1 else Fin 0)"
| "ToNumber rt (JNum n) = n"
| "ToNumber rt v = ToNumber_other rt v"

definition arg_of :: "(string \<rightharpoonup> json) \<Rightarrow> string \<Rightarrow> json" where
  "arg_of args k = (case args k of None \<Rightarrow> JUndefined | Some v \<Rightarrow> v)"

subsection \<open>handleToolCall\<close>

text \<open>
  The \<open>switch\<close> of \<open>handleToolCall\<close>, case by case and in its order. Each of the seven
  page tools starts with \<open>page = await getPage()\<close>; \<open>click\<close> and \<open>type_text\<close> then
  wrap their work in \<open>try\<close>/\<open>catch\<close> and answer
  \<open>{ success: false, error: error.message }\<close>. The \<open>wait\<close> case is
  \<^verbatim>\<open>
  case 'wait': {
    const seconds = Math.min(Math.max(args.seconds, 1), 30);
    await new Promise(resolve => setTimeout(resolve, seconds * 1000));
    return { success: true, message: `Waited ${seconds} seconds` };
  }
  \<close>
  A call answers the value returned or the error thrown, the launcher's state afterwards,
  and the delays (in milliseconds) it handed to \<open>setTimeout\<close>. Console output is
  left out.
\<close>

definition page_tool ::
  "Runtime \<Rightarrow> string \<Rightarrow> (string \<rightharpoonup> json) \<Rightarrow> LauncherState \<Rightarrow> Error + json" where
  "page_tool rt tool args st =
     (case getPage st of
        Inl e \<Rightarrow> Inl e
      | Inr page \<Rightarrow> page_work rt tool args page)"

definition page_tool_try ::
  "Runtime \<Rightarrow> string \<Rightarrow> (string \<rightharpoonup> json) \<Rightarrow> LauncherState \<Rightarrow> Error + json" where
  "page_tool_try rt tool args st =
     (case getPage st of
        Inl e \<Rightarrow> Inl e
      | Inr page \<Rightarrow>
          (case page_work rt tool args page of
             Inr r \<Rightarrow> Inr r
           | Inl (Error msg) \<Rightarrow> Inr (JObj [(''success'', JBool False), (''error'', JStr msg)])))"

definition wait_seconds :: "Runtime \<Rightarrow> (string \<rightharpoonup> json) \<Rightarrow> number" where
  "wait_seconds rt args = Math_min (Math_max (ToNumber rt (arg_of args ''seconds'')) (Fin 1)) (Fin 30)"

definition handleToolCall ::
  "Runtime \<Rightarrow> string \<Rightarrow> (string \<rightharpoonup> json) \<Rightarrow> LauncherState
     \<Rightarrow> (Error + json) \<times> LauncherState \<times> number list" where
  "handleToolCall rt tool args st =
     (if tool = ''launch_browser'' then
        (case launchBrowser rt st of
           (Inl e, st') \<Rightarrow> (Inl e, st', [])
         | (Inr p, st') \<Rightarrow>
             (Inr (JObj [(''success'', JBool True),
                         (''message'', JStr ''Browser launched with stealth mode'')]), st', []))
      else if tool = ''screenshot'' then (page_tool rt tool args st, st, [])
      else if tool = ''navigate'' then (page_tool rt tool args st, st, [])
      else if tool = ''click'' then (page_tool_try rt tool args st, st, [])
      else if tool = ''type_text'' then (page_tool_try rt tool args st, st, [])
      else if tool = ''scroll'' then (page_tool rt tool args st, st, [])
      else if tool = ''get_page_info'' then (page_tool rt tool args st, st, [])
      else if tool = ''check_element'' then (page_tool rt tool args st, st, [])
      else if tool = ''wait'' then
        (let seconds = wait_seconds rt args in
         (Inr (JObj [(''success'', JBool True),
                     (''message'', JStr (''Waited '' @ ToString rt (JNum seconds) @ '' seconds''))]),
          st, [times_1000 seconds]))
      else if tool = ''save_session'' then
        (case fs_mkdir rt of
           Inl e \<Rightarrow> (Inl e, st, [])
         | Inr _ \<Rightarrow>
             (case saveCookies rt st of
                Inl e \<Rightarrow> (Inl e, st, [])
              | Inr _ \<Rightarrow>
                  (Inr (JObj [(''success'', JBool True),
                              (''message'',
                               JStr (''Session saved as '' @ ToString rt (arg_of args ''name'')))]),
                   st, [])))
      else if tool = ''load_session'' then
        (case loadCookies rt st of
           Inl e \<Rightarrow> (Inl e, st, [])
         | Inr loaded \<Rightarrow>
             (Inr (JObj [(''success'', JBool loaded),
                         (''message'',
                          JStr (if loaded
                                then ''Session '' @ ToString rt (arg_of args ''name'') @ '' loaded''
                                else ''No session found for '' @ ToString rt (arg_of args ''name'')))]),
              st, []))
      else if tool = ''close_browser'' then
        (case closeBrowser rt st of
           (Inl e, st') \<Rightarrow> (Inl e, st', [])
         | (Inr _, st') \<Rightarrow>
             (Inr (JObj [(''success'', JBool True), (''message'', JStr ''Browser closed'')]),
              st', []))
      else (Inl (Error (''Unknown tool: '' @ tool)), st, []))"

subsection \<open>The request handler\<close>

text \<open>
  \<^verbatim>\<open>
  server.setRequestHandler(CallToolRequestSchema, async (request) => {
    const { name, arguments: args } = request.params;
    try {
      const result = await handleToolCall(name, args || {});
      return { content: [{ type: 'text', text: JSON.stringify(result, null, 2) }] };
    } catch (error: any) {
      return {
        content: [{ type: 'text', text: JSON.stringify({ error: error.message }) }],
        isError: true,
      };
    }
  });
  \<close>
  The text of the answer is kept as the value that \<open>JSON.stringify\<close> serialises;
  an absent \<open>isError\<close> is \<open>False\<close>. Everything thrown is an \<open>Error\<close> object with
  a message, as Playwright, Node and the code itself throw.
\<close>

record CallToolRequest =
  name :: string
  arguments :: "(string \<rightharpoonup> json) option"

record CallToolResult =
  text_of :: json
  isError :: bool

definition handler ::
  "Runtime \<Rightarrow> CallToolRequest \<Rightarrow> LauncherState \<Rightarrow> CallToolResult \<times> LauncherState \<times> number list" where
  "handler rt request st =
     (case handleToolCall rt (name request)
             (case arguments request of None \<Rightarrow> Map.empty | Some args \<Rightarrow> args) st of
        (Inr result, st', timers) \<Rightarrow> (\<lparr>text_of = result, isError = False\<rparr>, st', timers)
      | (Inl (Error msg), st', timers) \<Rightarrow>
          (\<lparr>text_of = JObj [(''error'', JStr msg)], isError = True\<rparr>, st', timers))"

section \<open>Observations and sample environments\<close>

text \<open>
  \<open>fails_with_message fn k\<close>: the invocation of \<open>fn\<close> at attempt \<open>k\<close> rejects with
  a value whose \<open>message\<close> can be read.
  \<open>out_of_stock checkStock k\<close>: the \<open>k\<close>-th call of \<open>checkStock\<close> resolves and
  reports that the item is not in stock, which is when \<open>monitorStock\<close> goes round
  again. \<open>is_check\<close> picks the stock checks out of the events of the monitoring loop.
\<close>

definition fails_with_message :: "(int \<Rightarrow> 'e rejection + 'a) \<Rightarrow> int \<Rightarrow> bool" where
  "fails_with_message fn k = (case fn k of Inl (Rejected e) \<Rightarrow> True | _ \<Rightarrow> False)"

definition out_of_stock :: "(nat \<Rightarrow> Error + StockStatus) \<Rightarrow> nat \<Rightarrow> bool" where
  "out_of_stock checkStock k = (case checkStock k of Inl e \<Rightarrow> False | Inr st \<Rightarrow> \<not> inStock st)"

fun is_check :: "MonitorEvent \<Rightarrow> bool" where
  "is_check (StockChecked k b) = True"
| "is_check ev = False"

text \<open>
  Sample data for the concrete runs below: a proxy with a given id and failure count, a
  shop that never restocks, a shop that is in stock from the check after the \<open>n\<close>-th
  on, and a runtime in which every external call succeeds.
\<close>

definition proxy_fixture :: "string \<Rightarrow> int \<Rightarrow> ProxyConfig" where
  "proxy_fixture pid fc =
     \<lparr>id_of = pid, type_of = residential, host = ''10.0.0.1'', port = 8080,
      username = None, password = None, location = ''NY'', lastUsed = None,
      failureCount = fc, status = active\<rparr>"

definition never_in_stock_world :: MonitorWorld where
  "never_in_stock_world =
     \<lparr>checkStock_at = (\<lambda>k. Inr False), screenshot_at = (\<lambda>k. Inr ()),
      addToCart_at = (\<lambda>k. Inr True), checkout_at = (\<lambda>k. Inr True),
      keepOpen_at = (\<lambda>k. Inr ()), waitForTimeout_at = (\<lambda>k. Inr ())\<rparr>"

definition restock_world :: "nat \<Rightarrow> MonitorWorld" where
  "restock_world n =
     \<lparr>checkStock_at = (\<lambda>k. Inr (n < k)), screenshot_at = (\<lambda>k. Inr ()),
      addToCart_at = (\<lambda>k. Inr True), checkout_at = (\<lambda>k. Inr True),
      keepOpen_at = (\<lambda>k. Inr ()), waitForTimeout_at = (\<lambda>k. Inr ())\<rparr>"

definition runtime_fixture :: Runtime where
  "runtime_fixture =
     \<lparr>chromium_launch = Inr 1, browser_newContext = Inr 2, context_addInitScript = Inr (),
      context_newPage = Inr 3, page_close = Inr (), context_close = Inr (),
      browser_close = Inr (), context_cookies = Inr (JArr []), fs_writeFile = Inr (),
      fs_readFile = Inr ''[]'', JSON_parse = (\<lambda>s. Inr (JArr [])), context_addCookies = Inr (),
      fs_mkdir = Inr (), page_work = (\<lambda>tool args page. Inr (JObj [(''success'', JBool True)])),
      ToNumber_other = (\<lambda>v. NaN), ToString = (\<lambda>v. ''?'')\<rparr>"

section \<open>Properties of withRetry\<close>

declare withRetry_loop.simps [simp del]

lemma withRetry_loop_done:
  "\<not> a \<le> m \<Longrightarrow>
     withRetry_loop fn m d a le cs ds lg =
       \<lparr>outcome = Inl (Thrown le), calls = cs, delays = ds, logged = lg\<rparr>"
  by (simp add: withRetry_loop.simps[of fn m d a])

lemma withRetry_loop_resolve:
  "a \<le> m \<Longrightarrow> fn a = Inr v \<Longrightarrow>
     withRetry_loop fn m d a le cs ds lg =
       \<lparr>outcome = Inr v, calls = cs @ [a], delays = ds, logged = lg\<rparr>"
  by (simp add: withRetry_loop.simps[of fn m d a])

lemma withRetry_loop_nullish:
  "a \<le> m \<Longrightarrow> fn a = Inl RejectedNull \<or> fn a = Inl RejectedUndefined \<Longrightarrow>
     withRetry_loop fn m d a le cs ds lg =
       \<lparr>outcome = Inl TypeError, calls = cs @ [a], delays = ds, logged = lg\<rparr>"
  by (auto simp: withRetry_loop.simps[of fn m d a])

lemma withRetry_loop_reject:
  "a \<le> m \<Longrightarrow> fn a = Inl (Rejected err) \<Longrightarrow>
     withRetry_loop fn m d a le cs ds lg =
       withRetry_loop fn m d (a + 1) (Rejected err) (cs @ [a])
         (if a < m then ds @ [d * a] else ds) (lg @ [(a, err)])"
  by (simp add: withRetry_loop.simps[of fn m d a])

lemma fails_with_message_iff:
  "fails_with_message fn k \<longleftrightarrow> (\<exists>e. fn k = Inl (Rejected e))"
  by (auto simp: fails_with_message_def split: sum.splits rejection.splits)

text \<open>
  The shape of every run of the loop from attempt \<open>a\<close>: it invokes \<open>fn\<close> at the
  attempts \<open>a, ..., c\<close> for some \<open>c\<close> up to \<open>maxAttempts\<close>, waits \<open>d * k\<close> after
  each of them but the last, and ends in one of three ways.
\<close>

lemma withRetry_loop_char:
  "a \<le> m + 1 \<Longrightarrow> \<exists>c. a - 1 \<le> c \<and> c \<le> m \<and>
     calls (withRetry_loop fn m d a le cs ds lg) = cs @ [a..c] \<and>
     delays (withRetry_loop fn m d a le cs ds lg) = ds @ map (\<lambda>k. d * k) [a..c - 1] \<and>
     (\<forall>k\<in>{a..<c}. fails_with_message fn k) \<and>
     (case outcome (withRetry_loop fn m d a le cs ds lg) of
        Inr v \<Rightarrow> a \<le> c \<and> fn c = Inr v
      | Inl TypeError \<Rightarrow> a \<le> c \<and> (fn c = Inl RejectedNull \<or> fn c = Inl RejectedUndefined)
      | Inl (Thrown x) \<Rightarrow> c = m \<and> (\<forall>k\<in>{a..m}. fails_with_message fn k) \<and>
                 x = (if a \<le> m then projl (fn m) else le))"
proof (induction fn m d a le cs ds lg rule: withRetry_loop.induct)
  case (1 fn m d a le cs ds lg)
  show ?case
  proof (cases "a \<le> m")
    case False
    with "1.prems" have am: "a = m + 1" by simp
    show ?thesis
      unfolding withRetry_loop_done[OF False]
      using am by (intro exI[of _ m]) simp
  next
    case True
    show ?thesis
    proof (cases "fn a")
      case (Inr v)
      show ?thesis
        unfolding withRetry_loop_resolve[of a m fn v, OF True Inr]
        using True Inr by (intro exI[of _ a]) simp
    next
      case (Inl error)
      show ?thesis
      proof (cases "\<exists>err. error = Rejected err")
        case False
        then have nl: "fn a = Inl RejectedNull \<or> fn a = Inl RejectedUndefined"
          using Inl by (cases error) auto
        show ?thesis
          unfolding withRetry_loop_nullish[of a m fn, OF True nl]
          using True nl by (intro exI[of _ a]) simp
      next
        case ex: True
        then obtain err where err: "error = Rejected err" by blast
        have fa: "fn a = Inl (Rejected err)" using Inl err by simp
        let ?r = "withRetry_loop fn m d (a + 1) error (cs @ [a])
              (if a < m then ds @ [d * a] else ds) (lg @ [(a, err)])"
        from "1.IH"[OF True Inl err] True
        obtain c where c: "a \<le> c" "c \<le> m"
          "calls ?r = (cs @ [a]) @ [a + 1..c]"
          "delays ?r = (if a < m then ds @ [d * a] else ds) @ map (\<lambda>k. d * k) [a + 1..c - 1]"
          "\<forall>k\<in>{a + 1..<c}. fails_with_message fn k"
          "case outcome ?r of
             Inr v \<Rightarrow> a + 1 \<le> c \<and> fn c = Inr v
           | Inl TypeError \<Rightarrow>
               a + 1 \<le> c \<and> (fn c = Inl RejectedNull \<or> fn c = Inl RejectedUndefined)
           | Inl (Thrown x) \<Rightarrow> c = m \<and> (\<forall>k\<in>{a + 1..m}. fails_with_message fn k) \<and>
                 x = (if a + 1 \<le> m then projl (fn m) else error)"
          by auto
        have step: "withRetry_loop fn m d a le cs ds lg = ?r"
          unfolding err using True fa by (rule withRetry_loop_reject[of a m fn err])
        have u1: "[a..c] = a # [a + 1..c]" using c(1) by (simp add: upto_rec1)
        have fwm: "fails_with_message fn a" using fa by (simp add: fails_with_message_def)
        have all1: "\<forall>k\<in>{a..<c}. fails_with_message fn k"
        proof
          fix k assume "k \<in> {a..<c}"
          then have "k = a \<or> k \<in> {a + 1..<c}" by auto
          with fwm c(5) show "fails_with_message fn k" by auto
        qed
        have dl: "delays ?r = ds @ map (\<lambda>k. d * k) [a..c - 1]"
        proof (cases "a < m")
          case True
          show ?thesis
          proof (cases "a < c")
            case True
            then have "[a..c - 1] = a # [a + 1..c - 1]" by (simp add: upto_rec1)
            with c(4) \<open>a < m\<close> show ?thesis by simp
          next
            case False
            with c(1) have ac: "c = a" by simp
            with c(6) \<open>a < m\<close> have False
              by (auto split: sum.splits thrown.splits)
            then show ?thesis ..
          qed
        next
          case False
          with True c(1,2) have "c = a" "a = m" by auto
          with c(4) show ?thesis by simp
        qed
        have oc: "case outcome ?r of
             Inr v \<Rightarrow> a \<le> c \<and> fn c = Inr v
           | Inl TypeError \<Rightarrow> a \<le> c \<and> (fn c = Inl RejectedNull \<or> fn c = Inl RejectedUndefined)
           | Inl (Thrown x) \<Rightarrow> c = m \<and> (\<forall>k\<in>{a..m}. fails_with_message fn k) \<and>
                 x = (if a \<le> m then projl (fn m) else le)"
        proof (cases "outcome ?r")
          case (Inr v)
          with c(6) c(1) show ?thesis by simp
        next
          case (Inl t)
          show ?thesis
          proof (cases t)
            case TypeError
            with Inl c(6) c(1) show ?thesis by simp
          next
            case (Thrown x)
            with Inl c(6) have cm: "c = m" and al: "\<forall>k\<in>{a + 1..m}. fails_with_message fn k"
              and x: "x = (if a + 1 \<le> m then projl (fn m) else error)" by auto
            have "\<forall>k\<in>{a..m}. fails_with_message fn k"
            proof
              fix k assume "k \<in> {a..m}"
              then have "k = a \<or> k \<in> {a + 1..m}" by auto
              with fwm al show "fails_with_message fn k" by auto
            qed
            moreover have "x = projl (fn m)"
            proof (cases "a + 1 \<le> m")
              case True with x show ?thesis by simp
            next
              case False
              with \<open>a \<le> m\<close> have "a = m" by simp
              with x False fa err show ?thesis by simp
            qed
            ultimately show ?thesis using Inl Thrown cm True by simp
          qed
        qed
        show ?thesis
          unfolding step
          using c(1,2,3) u1 all1 dl oc by (intro exI[of _ c]) simp
      qed
    qed
  qed
qed

lemma withRetry_neg:
  "m < 1 \<Longrightarrow>
     withRetry fn m d =
       \<lparr>outcome = Inl (Thrown RejectedUndefined), calls = [], delays = [], logged = []\<rparr>"
  by (simp add: withRetry_def withRetry_loop_done)

lemma withRetry_char:
  "\<exists>c. 0 \<le> c \<and> c \<le> max 0 m \<and>
     calls (withRetry fn m d) = [1..c] \<and>
     delays (withRetry fn m d) = map (\<lambda>k. d * k) [1..c - 1] \<and>
     (\<forall>k\<in>{1..<c}. fails_with_message fn k) \<and>
     (case outcome (withRetry fn m d) of
        Inr v \<Rightarrow> 1 \<le> c \<and> fn c = Inr v
      | Inl TypeError \<Rightarrow> 1 \<le> c \<and> (fn c = Inl RejectedNull \<or> fn c = Inl RejectedUndefined)
      | Inl (Thrown x) \<Rightarrow> c = max 0 m \<and> (\<forall>k\<in>{1..m}. fails_with_message fn k) \<and>
                 x = (if 1 \<le> m then projl (fn m) else RejectedUndefined))"
proof (cases "0 \<le> m")
  case True
  then have "1 \<le> m + 1" by simp
  from withRetry_loop_char[OF this, of fn d RejectedUndefined "[]" "[]" "[]"]
  obtain c where c: "0 \<le> c" "c \<le> m"
    "calls (withRetry fn m d) = [1..c]"
    "delays (withRetry fn m d) = map (\<lambda>k. d * k) [1..c - 1]"
    "\<forall>k\<in>{1..<c}. fails_with_message fn k"
    "case outcome (withRetry fn m d) of
        Inr v \<Rightarrow> 1 \<le> c \<and> fn c = Inr v
      | Inl TypeError \<Rightarrow> 1 \<le> c \<and> (fn c = Inl RejectedNull \<or> fn c = Inl RejectedUndefined)
      | Inl (Thrown x) \<Rightarrow> c = m \<and> (\<forall>k\<in>{1..m}. fails_with_message fn k) \<and>
                 x = (if 1 \<le> m then projl (fn m) else RejectedUndefined)"
    unfolding withRetry_def by auto
  have mx: "max 0 m = m" using True by simp
  show ?thesis
    unfolding mx using c by (intro exI[of _ c]) simp
next
  case False
  then show ?thesis
    by (intro exI[of _ 0]) (simp add: withRetry_neg)
qed

text \<open>
  What holds of every run, and of the runs in which each rejection carries a message:
  \<open>fn\<close> is invoked at the attempts \<open>1, 2, ...\<close> in this order, at most
  \<open>maxAttempts\<close> times; when every attempt up to \<open>maxAttempts\<close> fails with a message,
  \<open>withRetry\<close> has invoked \<open>fn\<close> exactly \<open>maxAttempts\<close> times, waits once less than
  that and throws the error of the last attempt.
\<close>

lemma withRetry_attempts_bounded:
  "length (calls (withRetry fn maxAttempts delayMs)) \<le> nat maxAttempts \<and>
   calls (withRetry fn maxAttempts delayMs) =
     [1..int (length (calls (withRetry fn maxAttempts delayMs)))] \<and>
   sorted_wrt (<) (calls (withRetry fn maxAttempts delayMs)) \<and>
   ((\<forall>k\<in>{1..maxAttempts}. fails_with_message fn k) \<longrightarrow>
      outcome (withRetry fn maxAttempts delayMs) =
        Inl (Thrown (if 1 \<le> maxAttempts then projl (fn maxAttempts) else RejectedUndefined)) \<and>
      calls (withRetry fn maxAttempts delayMs) = [1..maxAttempts] \<and>
      length (delays (withRetry fn maxAttempts delayMs)) = nat (maxAttempts - 1))"
proof -
  let ?r = "withRetry fn maxAttempts delayMs"
  obtain c where c: "0 \<le> c" "c \<le> max 0 maxAttempts" "calls ?r = [1..c]"
    "delays ?r = map (\<lambda>k. delayMs * k) [1..c - 1]"
    "case outcome ?r of
        Inr v \<Rightarrow> 1 \<le> c \<and> fn c = Inr v
      | Inl TypeError \<Rightarrow> 1 \<le> c \<and> (fn c = Inl RejectedNull \<or> fn c = Inl RejectedUndefined)
      | Inl (Thrown x) \<Rightarrow> c = max 0 maxAttempts \<and>
                 (\<forall>k\<in>{1..maxAttempts}. fails_with_message fn k) \<and>
                 x = (if 1 \<le> maxAttempts then projl (fn maxAttempts) else RejectedUndefined)"
    using withRetry_char[of maxAttempts fn delayMs] by blast
  have len: "int (length (calls ?r)) = c" using c(1,3) by simp
  have a: "length (calls ?r) \<le> nat maxAttempts" using len c(2) by linarith
  have b: "calls ?r = [1..int (length (calls ?r))]" using len c(3) by simp
  have s: "sorted_wrt (<) (calls ?r)" unfolding c(3) by (rule sorted_wrt_upto)
  have d: "outcome ?r =
        Inl (Thrown (if 1 \<le> maxAttempts then projl (fn maxAttempts) else RejectedUndefined)) \<and>
      calls ?r = [1..maxAttempts] \<and> length (delays ?r) = nat (maxAttempts - 1)"
    if allfail: "\<forall>k\<in>{1..maxAttempts}. fails_with_message fn k"
  proof -
    have notc: "\<not> fails_with_message fn c \<Longrightarrow> 1 \<le> c \<Longrightarrow> False"
    proof -
      assume n: "\<not> fails_with_message fn c" and "1 \<le> c"
      with c(2) have "c \<in> {1..maxAttempts}" by auto
      with allfail n show False by blast
    qed
    show ?thesis
    proof (cases "outcome ?r")
      case (Inr v)
      with c(5) have "1 \<le> c" "fn c = Inr v" by auto
      then have False using notc by (simp add: fails_with_message_def)
      then show ?thesis ..
    next
      case (Inl t)
      show ?thesis
      proof (cases t)
        case TypeError
        with Inl c(5) have "1 \<le> c" "fn c = Inl RejectedNull \<or> fn c = Inl RejectedUndefined"
          by auto
        then have False using notc by (auto simp: fails_with_message_def)
        then show ?thesis ..
      next
        case (Thrown x)
        with Inl c(5) have cm: "c = max 0 maxAttempts"
          and x: "x = (if 1 \<le> maxAttempts then projl (fn maxAttempts) else RejectedUndefined)"
          by auto
        have "calls ?r = [1..maxAttempts]" using c(3) cm by (cases "0 \<le> maxAttempts") auto
        moreover have "length (delays ?r) = nat (maxAttempts - 1)"
          unfolding c(4) using cm by (cases "0 \<le> maxAttempts") auto
        ultimately show ?thesis using Inl Thrown x by simp
      qed
    qed
  qed
  from a b s d show ?thesis by blast
qed

text \<open>
  Claim C6 fails on the code where a rejection carries no message. When \<open>fn\<close> rejects
  with \<open>null\<close>, the log line of the \<open>catch\<close> block throws a \<open>TypeError\<close>:
  with \<open>maxAttempts = 3\<close> the run makes one call, neither waits nor retries, and throws
  the \<open>TypeError\<close> instead of the last error. The same happens at the second attempt
  when \<open>fn\<close> rejects with \<open>undefined\<close> there.
\<close>

theorem withRetry_nullish_rejection:
  "withRetry (\<lambda>k. Inl RejectedNull :: string rejection + nat) 3 1000 =
     \<lparr>outcome = Inl TypeError, calls = [1], delays = [], logged = []\<rparr> \<and>
   withRetry (\<lambda>k. if k < 2 then Inl (Rejected ''timeout'') else Inl RejectedUndefined
                :: string rejection + nat) 3 1000 =
     \<lparr>outcome = Inl TypeError, calls = [1, 2], delays = [1000], logged = [(1, ''timeout'')]\<rparr>"
  by (simp add: withRetry_def withRetry_loop_nullish withRetry_loop_reject)

text \<open>
  Claim C5, as the code has it. The delay waited after the \<open>k\<close>-th failed attempt is
  \<open>delayMs * k\<close>: the delays of a run are \<open>delayMs, 2 * delayMs, ...\<close>, one after each
  call but the last, so they grow linearly, by \<open>delayMs\<close> per failure. The function
  takes no ceiling and applies none: each delay is that product as it is.
\<close>

theorem withRetry_delays_linear:
  "delays (withRetry fn maxAttempts delayMs) =
     map (\<lambda>k. delayMs * k) [1..int (length (calls (withRetry fn maxAttempts delayMs))) - 1]"
proof -
  let ?r = "withRetry fn maxAttempts delayMs"
  obtain c where c: "0 \<le> c" "calls ?r = [1..c]"
    "delays ?r = map (\<lambda>k. delayMs * k) [1..c - 1]"
    using withRetry_char[of maxAttempts fn delayMs] by blast
  have len: "int (length (calls ?r)) = c" using c(1,2) by simp
  show ?thesis using c(3) len by simp
qed

text \<open>
  Four failing attempts with \<open>delayMs = 1000\<close>: three waits, of 1000, 2000 and
  3000 ms.
\<close>

theorem withRetry_delays_linear_witness:
  "calls (withRetry (\<lambda>k. Inl (Rejected ''boom'') :: string rejection + nat) 4 1000) =
     [1, 2, 3, 4] \<and>
   delays (withRetry (\<lambda>k. Inl (Rejected ''boom'') :: string rejection + nat) 4 1000) =
     [1000, 2000, 3000]"
proof -
  have c: "calls (withRetry (\<lambda>k. Inl (Rejected ''boom'') :: string rejection + nat) 4 1000) =
      [1, 2, 3, 4]"
    by (simp add: withRetry_def withRetry_loop_reject withRetry_loop_done)
  show ?thesis
    using withRetry_delays_linear[of "\<lambda>k. Inl (Rejected ''boom'') :: string rejection + nat" 4 1000] c
    by (simp add: upto_rec1)
qed

text \<open>
  Claim C5 as stated fails: with \<open>delayMs = 1000\<close> and four failing attempts the
  delays are 1000, 2000 and 3000 milliseconds, which is not a geometric progression
  (the product of the first and the third is not the square of the second).
\<close>

theorem withRetry_not_exponential:
  "delays (withRetry (\<lambda>k. Inl (Rejected ''boom'') :: string rejection + nat) 4 1000) =
     [1000, 2000, 3000] \<and>
   delays (withRetry (\<lambda>k. Inl (Rejected ''boom'') :: string rejection + nat) 4 1000) ! 2 *
     delays (withRetry (\<lambda>k. Inl (Rejected ''boom'') :: string rejection + nat) 4 1000) ! 0 \<noteq>
   delays (withRetry (\<lambda>k. Inl (Rejected ''boom'') :: string rejection + nat) 4 1000) ! 1 *
     delays (withRetry (\<lambda>k. Inl (Rejected ''boom'') :: string rejection + nat) 4 1000) ! 1"
proof -
  have d: "delays (withRetry (\<lambda>k. Inl (Rejected ''boom'') :: string rejection + nat) 4 1000) =
      [1000, 2000, 3000]"
    by (simp add: withRetry_def withRetry_loop_reject withRetry_loop_done)
  show ?thesis unfolding d by simp
qed

section \<open>Properties of the proxy pools\<close>

lemma getNext_in_range:
  "ps \<noteq> [] \<Longrightarrow> i < length ps \<Longrightarrow>
     getNext \<lparr>proxies = ps, currentIndex = Some i\<rparr> =
       (Some (ps ! i), \<lparr>proxies = ps, currentIndex = Some ((i + 1) mod length ps)\<rparr>)"
  by (simp add: getNext_def)

lemma getNext_calls_cyclic:
  "ps \<noteq> [] \<Longrightarrow> i < length ps \<Longrightarrow>
     getNext_calls k \<lparr>proxies = ps, currentIndex = Some i\<rparr> =
       (map (\<lambda>j. Some (ps ! ((i + j) mod length ps))) [0..<k],
        \<lparr>proxies = ps, currentIndex = Some ((i + k) mod length ps)\<rparr>)"
proof (induction k arbitrary: i)
  case 0
  then show ?case by simp
next
  case (Suc k)
  have lt: "(i + 1) mod length ps < length ps" using Suc.prems(1) by simp
  have ih: "getNext_calls k \<lparr>proxies = ps, currentIndex = Some ((i + 1) mod length ps)\<rparr> =
       (map (\<lambda>j. Some (ps ! (((i + 1) mod length ps + j) mod length ps))) [0..<k],
        \<lparr>proxies = ps, currentIndex = Some (((i + 1) mod length ps + k) mod length ps)\<rparr>)"
    by (rule Suc.IH[OF Suc.prems(1) lt])
  have m1: "\<And>j. ((i + 1) mod length ps + j) mod length ps = (i + Suc j) mod length ps"
    by (simp add: mod_add_left_eq)
  have shift: "map (\<lambda>j. Some (ps ! ((i + j) mod length ps))) [0..<Suc k] =
      Some (ps ! i) # map (\<lambda>j. Some (ps ! ((i + Suc j) mod length ps))) [0..<k]"
    using Suc.prems(2) by (simp add: upt_conv_Cons map_Suc_upt[symmetric] del: upt_Suc)
  have step: "getNext_calls (Suc k) \<lparr>proxies = ps, currentIndex = Some i\<rparr> =
      (Some (ps ! i) #
         fst (getNext_calls k \<lparr>proxies = ps, currentIndex = Some ((i + 1) mod length ps)\<rparr>),
       snd (getNext_calls k \<lparr>proxies = ps, currentIndex = Some ((i + 1) mod length ps)\<rparr>))"
    unfolding getNext_calls.simps getNext_in_range[OF Suc.prems]
    by (simp add: case_prod_beta)
  show ?case
    unfolding step ih shift m1 by simp
qed

lemma mod_shift_le:
  fixes n :: nat
  assumes "a \<le> b" "b < n" "(i + a) mod n = (i + b) mod n"
  shows "a = b"
proof -
  have "(i + b) mod n = (i + a) mod n" using assms(3) by simp
  moreover have "i + a \<le> i + b" using assms(1) by simp
  ultimately have "n dvd (i + b) - (i + a)" by (simp add: mod_eq_dvd_iff_nat)
  then have "n dvd b - a" by simp
  moreover have "b - a < n" using assms(2) by simp
  ultimately have "b - a = 0" by (meson dvd_imp_le less_le_not_le not_gr_zero)
  with assms(1) show ?thesis by simp
qed

lemma mod_shift_inj:
  fixes n :: nat
  assumes "a < n" "b < n" "(i + a) mod n = (i + b) mod n"
  shows "a = b"
proof (cases "a \<le> b")
  case True
  then show ?thesis using assms by (intro mod_shift_le[of a b n i])
next
  case False
  then have "b \<le> a" by simp
  then have "b = a" using assms by (intro mod_shift_le[of b a n i]) simp_all
  then show ?thesis by simp
qed

lemma getAvailableProxy_loop_not_banned:
  "getAvailableProxy_loop this r now ps = Some p \<Longrightarrow>
     p \<in> set ps \<and> \<not> isBannedFor this (id_of p) r now \<and>
     isProxyHealthy (healthChecker this) (id_of p)"
  by (induction ps) (auto split: if_splits)

text \<open>
  Claim C1, as the code has it. For every non-empty pool of \<open>N\<close> proxies, \<open>getNext\<close>
  hands them out in cyclic order: the \<open>j\<close>-th of a sequence of calls returns
  \<open>proxies[(i + j) mod N]\<close>. Every proxy handed out is a member of the pool, so at most
  \<open>N\<close> different ones are ever out, and \<open>N\<close> calls in a row hand out \<open>N\<close> different
  proxies when the pool's entries are distinct. The pool keeps no lease and has no
  release: call \<open>N + 1\<close> returns the proxy of the first call again, whoever holds it.
  \<open>getAvailableProxy\<close> changes no state and returns members of \<open>pool.getAll()\<close>
  only.
\<close>

theorem getNext_round_robin:
  assumes "ps \<noteq> []" and "i < length ps"
  shows
    "fst (getNext_calls k \<lparr>proxies = ps, currentIndex = Some i\<rparr>) =
       map (\<lambda>j. Some (ps ! ((i + j) mod length ps))) [0..<k] \<and>
     set (fst (getNext_calls k \<lparr>proxies = ps, currentIndex = Some i\<rparr>)) \<subseteq> Some ` set ps \<and>
     card (set (fst (getNext_calls k \<lparr>proxies = ps, currentIndex = Some i\<rparr>))) \<le> length ps \<and>
     (distinct ps \<longrightarrow>
        distinct (fst (getNext_calls (length ps) \<lparr>proxies = ps, currentIndex = Some i\<rparr>))) \<and>
     fst (getNext_calls (Suc (length ps)) \<lparr>proxies = ps, currentIndex = Some i\<rparr>) ! length ps =
       fst (getNext_calls (Suc (length ps)) \<lparr>proxies = ps, currentIndex = Some i\<rparr>) ! 0 \<and>
     (\<forall>p. getAvailableProxy bd r now = Some p \<longrightarrow> p \<in> set (pool_getAll bd))"
proof -
  let ?n = "length ps"
  let ?out = "\<lambda>k. fst (getNext_calls k \<lparr>proxies = ps, currentIndex = Some i\<rparr>)"
  have npos: "0 < ?n" using assms(1) by simp
  have out: "?out k = map (\<lambda>j. Some (ps ! ((i + j) mod ?n))) [0..<k]" for k
    by (simp add: getNext_calls_cyclic[OF assms])
  have sub: "set (?out k) \<subseteq> Some ` set ps"
  proof
    fix x assume "x \<in> set (?out k)"
    then obtain j where "x = Some (ps ! ((i + j) mod ?n))" unfolding out by auto
    moreover have "(i + j) mod ?n < ?n" using npos by simp
    ultimately show "x \<in> Some ` set ps" by simp
  qed
  have "card (set (?out k)) \<le> card (Some ` set ps)"
    by (rule card_mono[OF _ sub]) simp
  also have "\<dots> \<le> card (set ps)" by (rule card_image_le) simp
  also have "\<dots> \<le> ?n" by (rule card_length)
  finally have crd: "card (set (?out k)) \<le> ?n" .
  have dst: "distinct (?out ?n)" if d: "distinct ps"
  proof -
    have "inj_on (\<lambda>j. Some (ps ! ((i + j) mod ?n))) (set [0..<?n])"
    proof (rule inj_onI)
      fix a b assume a: "a \<in> set [0..<?n]" and b: "b \<in> set [0..<?n]"
        and e: "Some (ps ! ((i + a) mod ?n)) = Some (ps ! ((i + b) mod ?n))"
      have "(i + a) mod ?n < ?n" "(i + b) mod ?n < ?n" using npos by simp_all
      with e d have "(i + a) mod ?n = (i + b) mod ?n"
        by (simp add: nth_eq_iff_index_eq)
      with a b show "a = b" by (intro mod_shift_inj[of a ?n b i]) simp_all
    qed
    then show ?thesis unfolding out by (simp add: distinct_map)
  qed
  have again: "?out (Suc ?n) ! ?n = ?out (Suc ?n) ! 0"
    unfolding out using npos by (simp add: nth_append del: upt_Suc)
  have mem: "p \<in> set (pool_getAll bd)" if "getAvailableProxy bd r now = Some p" for p
    using that unfolding getAvailableProxy_def by (blast dest: getAvailableProxy_loop_not_banned)
  from out sub crd dst again mem show ?thesis by blast
qed

text \<open>
  A pool of two proxies, three calls: A, B, and A again.
\<close>

theorem getNext_round_robin_witness:
  "[proxy_fixture ''A'' 0, proxy_fixture ''B'' 0] \<noteq> [] \<and>
   (0::nat) < length [proxy_fixture ''A'' 0, proxy_fixture ''B'' 0] \<and>
   fst (getNext_calls 3 \<lparr>proxies = [proxy_fixture ''A'' 0, proxy_fixture ''B'' 0],
                           currentIndex = Some 0\<rparr>) =
     [Some (proxy_fixture ''A'' 0), Some (proxy_fixture ''B'' 0), Some (proxy_fixture ''A'' 0)]"
  using getNext_round_robin[of "[proxy_fixture ''A'' 0, proxy_fixture ''B'' 0]" 0 3]
  by (simp add: upt_rec)

text \<open>
  Claim C1 as stated fails: on a pool of one proxy, two calls of \<open>getNext\<close> with
  nothing in between (the pool has no release) hand the same proxy to both callers.
  \<open>getAvailableProxy\<close> answers that proxy too, and changes nothing, so every further
  caller gets the same answer.
\<close>

theorem getNext_leases_twice:
  "fst (getNext_calls 2 (newRotatingProxyPool [proxy_fixture ''A'' 0])) =
     [Some (proxy_fixture ''A'' 0), Some (proxy_fixture ''A'' 0)] \<and>
   getAvailableProxy
     \<lparr>bannedProxies = Map.empty, pool_getAll = [proxy_fixture ''A'' 0],
      healthChecker = Map.empty\<rparr> ''target'' 1000 = Some (proxy_fixture ''A'' 0)"
  by (simp add: newRotatingProxyPool_def getNext_def numeral_2_eq_2 getAvailableProxy_def
      isBannedFor_def isProxyHealthy_def proxy_fixture_def)

subsection \<open>Bans\<close>

lemma isBannedFor_markAsBanned_same:
  "new_Date (t0 + durationMs) = Some u \<Longrightarrow> now < u \<Longrightarrow>
     isBannedFor (markAsBanned this pid r durationMs t0) pid r now"
  by (simp add: isBannedFor_def markAsBanned_def list_ex_iff Let_def)

lemma isBannedFor_markAsBanned_mono:
  "isBannedFor this pid r now \<Longrightarrow> isBannedFor (markAsBanned this pid' r' d' t') pid r now"
  by (auto simp: isBannedFor_def markAsBanned_def list_ex_iff Let_def split: option.splits)

lemma isBannedFor_markAsBanned_calls:
  "isBannedFor this pid r now \<Longrightarrow> isBannedFor (markAsBanned_calls this later) pid r now"
proof (induction later arbitrary: this)
  case Nil
  then show ?case by simp
next
  case (Cons c later)
  obtain pid' r' d' t' where c: "c = (pid', r', d', t')" by (cases c) auto
  show ?case unfolding c markAsBanned_calls.simps
    by (rule Cons.IH) (rule isBannedFor_markAsBanned_mono[OF Cons.prems])
qed

lemma isBannedFor_fields:
  "isBannedFor (this\<lparr>pool_getAll := ps, healthChecker := hm\<rparr>) pid r now =
     isBannedFor this pid r now"
  by (simp add: isBannedFor_def)

lemma isBannedFor_other_retailer:
  "r' \<noteq> r \<Longrightarrow> isBannedFor (markAsBanned this pid r d t0) q r' now = isBannedFor this q r' now"
proof -
  assume ne: "r' \<noteq> r"
  then have ne': "r \<noteq> r'" by simp
  show ?thesis
  proof (cases "q = pid")
    case True
    then show ?thesis using ne'
      by (simp add: isBannedFor_def markAsBanned_def Let_def list_ex_iff)
  next
    case False
    then show ?thesis
      by (simp add: isBannedFor_def markAsBanned_def Let_def)
  qed
qed

lemma getAvailableProxy_loop_cong:
  "(\<And>q. q \<in> set ps \<Longrightarrow> isBannedFor this' (id_of q) r now = isBannedFor this (id_of q) r now) \<Longrightarrow>
   healthChecker this' = healthChecker this \<Longrightarrow>
   getAvailableProxy_loop this' r now ps = getAvailableProxy_loop this r now ps"
  by (induction ps) auto

text \<open>
  What holds of a ban whose expiry is inside the range of \<open>Date\<close>. After
  \<open>markAsBanned(pid, r, durationMs)\<close> at time \<open>t0\<close>, whose expiry \<open>u\<close> is a
  valid date, \<open>getAvailableProxy(r)\<close> at any time before \<open>u\<close> does not
  return a proxy with id \<open>pid\<close>, whatever further bans were recorded in between and
  whatever the pool and the health map are by then. A ban for \<open>r\<close> leaves the answer
  for every other retailer unchanged, so the proxy may still be returned there.
\<close>

lemma banned_proxy_not_returned:
  assumes "new_Date (t0 + durationMs) = Some u" and "now < u"
  shows
    "(\<forall>p. getAvailableProxy
            ((markAsBanned_calls (markAsBanned bd pid r durationMs t0) later)
               \<lparr>pool_getAll := ps, healthChecker := hm\<rparr>) r now = Some p
          \<longrightarrow> id_of p \<noteq> pid) \<and>
     (r' \<noteq> r \<longrightarrow>
        getAvailableProxy (markAsBanned bd pid r durationMs t0) r' now' =
          getAvailableProxy bd r' now')"
proof -
  let ?later = "(markAsBanned_calls (markAsBanned bd pid r durationMs t0) later)
               \<lparr>pool_getAll := ps, healthChecker := hm\<rparr>"
  have banned: "isBannedFor ?later pid r now"
    unfolding isBannedFor_fields
    by (rule isBannedFor_markAsBanned_calls) (rule isBannedFor_markAsBanned_same[OF assms])
  have a: "id_of p \<noteq> pid" if "getAvailableProxy ?later r now = Some p" for p
  proof
    assume "id_of p = pid"
    moreover from that have "\<not> isBannedFor ?later (id_of p) r now"
      unfolding getAvailableProxy_def by (blast dest: getAvailableProxy_loop_not_banned)
    ultimately show False using banned by simp
  qed
  have b: "getAvailableProxy (markAsBanned bd pid r durationMs t0) r' now' =
          getAvailableProxy bd r' now'" if "r' \<noteq> r"
  proof -
    have pool: "pool_getAll (markAsBanned bd pid r durationMs t0) = pool_getAll bd"
      and hc: "healthChecker (markAsBanned bd pid r durationMs t0) = healthChecker bd"
      by (simp_all add: markAsBanned_def Let_def)
    show ?thesis
      unfolding getAvailableProxy_def pool
      by (rule getAvailableProxy_loop_cong) (simp_all add: isBannedFor_other_retailer[OF that] hc)
  qed
  from a b show ?thesis by blast
qed

text \<open>
  Proxy A banned for ''target'' for an hour: a request for ''target'' gets B, a request
  for ''bestbuy'' still gets A.
\<close>

lemma banned_proxy_not_returned_example:
  "new_Date (1000 + 3600000) = Some 3601000 \<and> (2000::int) < 3601000 \<and>
   getAvailableProxy
     (markAsBanned \<lparr>bannedProxies = Map.empty,
                    pool_getAll = [proxy_fixture ''A'' 0, proxy_fixture ''B'' 0],
                    healthChecker = Map.empty\<rparr> ''A'' ''target'' 3600000 1000)
     ''target'' 2000 = Some (proxy_fixture ''B'' 0) \<and>
   getAvailableProxy
     (markAsBanned \<lparr>bannedProxies = Map.empty,
                    pool_getAll = [proxy_fixture ''A'' 0, proxy_fixture ''B'' 0],
                    healthChecker = Map.empty\<rparr> ''A'' ''target'' 3600000 1000)
     ''bestbuy'' 2000 = Some (proxy_fixture ''A'' 0)"
proof -
  have d: "new_Date (1000 + 3600000) = Some 3601000" by (simp add: new_Date_def)
  have l: "(2000::int) < 3601000" by simp
  show ?thesis
    using banned_proxy_not_returned[OF d l, where
        bd = "\<lparr>bannedProxies = Map.empty,
          pool_getAll = [proxy_fixture ''A'' 0, proxy_fixture ''B'' 0],
          healthChecker = Map.empty\<rparr>" and pid = "''A''" and r = "''target''" and later = "[]"
        and ps = "[proxy_fixture ''A'' 0, proxy_fixture ''B'' 0]" and hm = Map.empty
        and r' = "''bestbuy''" and now' = 2000]
    by (simp add: getAvailableProxy_def markAsBanned_def isBannedFor_def isProxyHealthy_def
        new_Date_def proxy_fixture_def)
qed

text \<open>
  Claim C2 fails on the code for a ban whose expiry lies beyond the range of \<open>Date\<close>.
  \<open>markAsBanned('A', 'target', 8640000000000000)\<close> at clock 1000 stores an invalid date;
  every comparison with it is false, so the ban is never in force:
  \<open>getAvailableProxy('target')\<close> at clock 2000, long before the expiry asked for,
  returns proxy A.
\<close>

theorem out_of_range_ban_is_ignored:
  "new_Date (1000 + 8640000000000000) = None \<and>
   \<not> isBannedFor
       (markAsBanned \<lparr>bannedProxies = Map.empty,
                      pool_getAll = [proxy_fixture ''A'' 0, proxy_fixture ''B'' 0],
                      healthChecker = Map.empty\<rparr> ''A'' ''target'' 8640000000000000 1000)
       ''A'' ''target'' 2000 \<and>
   getAvailableProxy
     (markAsBanned \<lparr>bannedProxies = Map.empty,
                    pool_getAll = [proxy_fixture ''A'' 0, proxy_fixture ''B'' 0],
                    healthChecker = Map.empty\<rparr> ''A'' ''target'' 8640000000000000 1000)
     ''target'' 2000 = Some (proxy_fixture ''A'' 0)"
  by (simp add: getAvailableProxy_def markAsBanned_def isBannedFor_def isProxyHealthy_def
      new_Date_def proxy_fixture_def)

subsection \<open>Selection\<close>

text \<open>
  Claim C4, as the code has it. \<open>getAvailableProxy\<close> returns the first proxy in pool
  order that is not banned for the retailer and is healthy, and \<open>null\<close> when there
  is none. Failure counts and last-use times play no part: changing them in the pool
  changes nothing but those fields of the proxy returned.
\<close>

theorem getAvailableProxy_first_in_pool_order:
  "getAvailableProxy bd r now =
     find (\<lambda>q. \<not> isBannedFor bd (id_of q) r now \<and>
                isProxyHealthy (healthChecker bd) (id_of q)) (pool_getAll bd) \<and>
   getAvailableProxy
     (bd\<lparr>pool_getAll := map (\<lambda>q. q\<lparr>failureCount := fc q, lastUsed := lu q\<rparr>) (pool_getAll bd)\<rparr>)
     r now =
   map_option (\<lambda>q. q\<lparr>failureCount := fc q, lastUsed := lu q\<rparr>) (getAvailableProxy bd r now)"
proof -
  have a: "getAvailableProxy_loop bd r now ps =
     find (\<lambda>q. \<not> isBannedFor bd (id_of q) r now \<and>
                isProxyHealthy (healthChecker bd) (id_of q)) ps" for ps
    by (induction ps) auto
  have b: "getAvailableProxy_loop (bd\<lparr>pool_getAll := qs\<rparr>) r now
             (map (\<lambda>q. q\<lparr>failureCount := fc q, lastUsed := lu q\<rparr>) ps) =
           map_option (\<lambda>q. q\<lparr>failureCount := fc q, lastUsed := lu q\<rparr>)
             (getAvailableProxy_loop bd r now ps)" for ps qs
    by (induction ps) (auto simp: isBannedFor_def)
  show ?thesis unfolding getAvailableProxy_def using a b by simp
qed

text \<open>
  Claim C4 as stated fails: A (failure count 5, two consecutive failures) and B (no
  failure) are both active, not banned and healthy; \<open>getAvailableProxy\<close> and
  \<open>getNext\<close> both return A, although B has a strictly lower failure count.
\<close>

theorem getAvailableProxy_ignores_failure_count:
  "getAvailableProxy
     \<lparr>bannedProxies = Map.empty,
      pool_getAll = [proxy_fixture ''A'' 5, proxy_fixture ''B'' 0],
      healthChecker = [''A'' \<mapsto> \<lparr>proxyId = ''A'', latency = 100, working = True,
                                  lastChecked = 0, consecutiveFailures = 2\<rparr>]\<rparr>
     ''target'' 1000 = Some (proxy_fixture ''A'' 5) \<and>
   failureCount (proxy_fixture ''B'' 0) < failureCount (proxy_fixture ''A'' 5) \<and>
   status (proxy_fixture ''B'' 0) = active \<and>
   \<not> isBannedFor
     \<lparr>bannedProxies = Map.empty,
      pool_getAll = [proxy_fixture ''A'' 5, proxy_fixture ''B'' 0],
      healthChecker = [''A'' \<mapsto> \<lparr>proxyId = ''A'', latency = 100, working = True,
                                  lastChecked = 0, consecutiveFailures = 2\<rparr>]\<rparr>
     ''B'' ''target'' 1000 \<and>
   isProxyHealthy [''A'' \<mapsto> \<lparr>proxyId = ''A'', latency = 100, working = True,
                                  lastChecked = 0, consecutiveFailures = 2\<rparr>] ''B'' \<and>
   fst (getNext (newRotatingProxyPool [proxy_fixture ''A'' 5, proxy_fixture ''B'' 0])) =
     Some (proxy_fixture ''A'' 5)"
  by (simp add: getAvailableProxy_def isBannedFor_def isProxyHealthy_def proxy_fixture_def
      getNext_def newRotatingProxyPool_def)

section \<open>Properties of stock monitoring\<close>

lemma monitorStock_loop_stop:
  "\<not> out_of_stock cs k \<Longrightarrow> monitorStock_loop cs rnd ci k ws = Some (cs k, ws)"
  by (subst monitorStock_loop.simps) (simp add: out_of_stock_def split: sum.splits)

lemma monitorStock_loop_continue:
  "out_of_stock cs k \<Longrightarrow>
     monitorStock_loop cs rnd ci k ws =
       monitorStock_loop cs rnd ci (Suc k) (ws @ [ci + (rnd k * 2000 - 1000)])"
  by (subst monitorStock_loop.simps) (simp add: out_of_stock_def split: sum.splits)

lemma monitorStock_loop_returns:
  "(\<forall>j. k \<le> j \<and> j < k + n \<longrightarrow> out_of_stock cs j) \<Longrightarrow> \<not> out_of_stock cs (k + n) \<Longrightarrow>
     monitorStock_loop cs rnd ci k ws =
       Some (cs (k + n), ws @ map (\<lambda>j. ci + (rnd j * 2000 - 1000)) [k..<k + n])"
proof (induction n arbitrary: k ws)
  case 0
  then show ?case by (simp add: monitorStock_loop_stop)
next
  case (Suc n)
  have oos: "out_of_stock cs k" using Suc.prems(1) by simp
  have ih: "monitorStock_loop cs rnd ci (Suc k) (ws @ [ci + (rnd k * 2000 - 1000)]) =
       Some (cs (Suc k + n), (ws @ [ci + (rnd k * 2000 - 1000)]) @
              map (\<lambda>j. ci + (rnd j * 2000 - 1000)) [Suc k..<Suc k + n])"
    by (rule Suc.IH) (use Suc.prems in auto)
  have "[k..<k + Suc n] = k # [Suc k..<Suc k + n]" by (simp add: upt_conv_Cons)
  then show ?case
    unfolding monitorStock_loop_continue[OF oos] ih by simp
qed

lemma monitorStock_loop_Some_stops:
  "monitorStock_loop cs rnd ci k ws = Some y \<Longrightarrow> \<exists>j\<ge>k. \<not> out_of_stock cs j"
proof (induction rule: monitorStock_loop.raw_induct[rotated 1, consumes 1])
  case (1 loop cs rnd ci k ws y)
  show ?case
  proof (cases "out_of_stock cs k")
    case False
    then show ?thesis by blast
  next
    case True
    with 1(2) have "loop cs rnd ci (Suc k) (ws @ [ci + (rnd k * 2000 - 1000)]) = Some y"
      by (auto simp: out_of_stock_def split: sum.splits)
    from 1(1)[OF this] obtain j where "Suc k \<le> j" "\<not> out_of_stock cs j" by blast
    then show ?thesis by (intro exI[of _ j]) simp
  qed
qed

lemma monitorStock_diverges:
  "(\<forall>j. out_of_stock cs j) \<Longrightarrow> monitorStock cs rnd ci = None"
proof (rule ccontr)
  assume all: "\<forall>j. out_of_stock cs j" and "monitorStock cs rnd ci \<noteq> None"
  then obtain y where "monitorStock_loop cs rnd ci 0 [] = Some y"
    by (auto simp: monitorStock_def)
  from monitorStock_loop_Some_stops[OF this] all show False by blast
qed

lemma monitorStock_first:
  assumes "\<not> out_of_stock cs n" and "\<forall>j<n. out_of_stock cs j"
  shows "monitorStock cs rnd ci = Some (cs n, map (\<lambda>j. ci + (rnd j * 2000 - 1000)) [0..<n])"
  using monitorStock_loop_returns[of 0 n cs rnd ci "[]"] assms
  by (simp add: monitorStock_def)

lemma monitorStock_returns_iff:
  "monitorStock cs rnd ci = None \<longleftrightarrow> (\<forall>j. out_of_stock cs j)"
proof
  assume none: "monitorStock cs rnd ci = None"
  show "\<forall>j. out_of_stock cs j"
  proof (rule ccontr)
    assume "\<not> (\<forall>j. out_of_stock cs j)"
    then obtain m where m: "\<not> out_of_stock cs m" by blast
    define n where "n = (LEAST m. \<not> out_of_stock cs m)"
    have a: "\<not> out_of_stock cs n" unfolding n_def using m by (rule LeastI)
    have b: "\<forall>j<n. out_of_stock cs j"
      unfolding n_def using not_less_Least by blast
    from monitorStock_first[OF a b] none show False by simp
  qed
next
  assume "\<forall>j. out_of_stock cs j"
  then show "monitorStock cs rnd ci = None" by (rule monitorStock_diverges)
qed

lemma in_stock_branch_no_throw:
  "\<not> isl (screenshot_at w k) \<Longrightarrow> \<not> isl (addToCart_at w k) \<Longrightarrow> \<not> isl (checkout_at w k) \<Longrightarrow>
   \<not> isl (keepOpen_at w k) \<Longrightarrow>
     snd (in_stock_branch w k) = None \<and> filter is_check (fst (in_stock_branch w k)) = []"
  by (auto simp: in_stock_branch_def split: sum.splits)

lemma monitor_iteration_no_throw:
  assumes "\<not> isl (checkStock_at w k)" "\<not> isl (screenshot_at w k)" "\<not> isl (addToCart_at w k)"
    "\<not> isl (checkout_at w k)" "\<not> isl (keepOpen_at w k)" "\<not> isl (waitForTimeout_at w k)"
  shows "snd (monitor_iteration w ci k) = None \<and>
         length (filter is_check (fst (monitor_iteration w ci k))) = 1"
proof -
  obtain b where b: "checkStock_at w k = Inr b" using assms(1) by (cases "checkStock_at w k") auto
  obtain u where u: "waitForTimeout_at w k = Inr u"
    using assms(6) by (cases "waitForTimeout_at w k") auto
  from in_stock_branch_no_throw[OF assms(2-5)]
  obtain evs where evs: "in_stock_branch w k = (evs, None)" "filter is_check evs = []"
    by (cases "in_stock_branch w k") auto
  show ?thesis
    by (cases b) (simp_all add: monitor_iteration_def b u evs)
qed

lemma monitor_iterations_no_throw:
  assumes "\<forall>k. \<not> isl (checkStock_at w k) \<and> \<not> isl (screenshot_at w k) \<and>
             \<not> isl (addToCart_at w k) \<and> \<not> isl (checkout_at w k) \<and>
             \<not> isl (keepOpen_at w k) \<and> \<not> isl (waitForTimeout_at w k)"
  shows "snd (monitor_iterations w ci c n) = None \<and>
         length (filter is_check (fst (monitor_iterations w ci c n))) = n"
proof (induction n arbitrary: c)
  case 0
  show ?case by simp
next
  case (Suc n)
  from assms have "snd (monitor_iteration w ci (Suc c)) = None \<and>
         length (filter is_check (fst (monitor_iteration w ci (Suc c)))) = 1"
    by (intro monitor_iteration_no_throw) simp_all
  then obtain evs where evs: "monitor_iteration w ci (Suc c) = (evs, None)"
      "length (filter is_check evs) = 1"
    by (cases "monitor_iteration w ci (Suc c)") auto
  obtain evs' where evs': "monitor_iterations w ci (Suc c) n = (evs', None)"
      "length (filter is_check evs') = n"
    using Suc.IH[of "Suc c"] by (cases "monitor_iterations w ci (Suc c) n") auto
  show ?case by (simp add: evs evs')
qed

lemma monitor_iterations_out_of_stock:
  "(\<forall>k. c < k \<and> k \<le> c + n \<longrightarrow> checkStock_at w k = Inr False \<and> waitForTimeout_at w k = Inr ()) \<Longrightarrow>
     monitor_iterations w ci c n =
       (concat (map (\<lambda>k. [StockChecked k False, Waited ci]) [Suc c..<Suc (c + n)]), None)"
proof (induction n arbitrary: c)
  case 0
  show ?case by simp
next
  case (Suc n)
  have it: "monitor_iteration w ci (Suc c) = ([StockChecked (Suc c) False, Waited ci], None)"
    using Suc.prems by (simp add: monitor_iteration_def)
  have ih: "monitor_iterations w ci (Suc c) n =
       (concat (map (\<lambda>k. [StockChecked k False, Waited ci]) [Suc (Suc c)..<Suc (Suc c + n)]), None)"
    by (rule Suc.IH) (use Suc.prems in auto)
  have "[Suc c..<Suc (c + Suc n)] = Suc c # [Suc (Suc c)..<Suc (Suc c + n)]"
    by (simp add: upt_conv_Cons del: upt_Suc)
  then show ?case
    unfolding monitor_iterations.simps it ih by simp
qed

text \<open>
  Claim C3, as the code has it. The monitoring loops have no maximum duration and no
  \<open>StockTimeout\<close>. \<open>monitorStock\<close> fails to return exactly when every check reports
  out of stock: it stops at the first check that reports in stock or throws, and
  otherwise re-checks forever. The loop of \<open>monitor()\<close> in test-costco.ts runs on as
  long as no call throws: after any number \<open>n\<close> of iterations it has made \<open>n\<close>
  checks and is still running.
\<close>

theorem monitoring_is_unbounded:
  "(monitorStock cs rnd ci = None \<longleftrightarrow> (\<forall>j. out_of_stock cs j)) \<and>
   ((\<forall>k. \<not> isl (checkStock_at w k) \<and> \<not> isl (screenshot_at w k) \<and>
          \<not> isl (addToCart_at w k) \<and> \<not> isl (checkout_at w k) \<and>
          \<not> isl (keepOpen_at w k) \<and> \<not> isl (waitForTimeout_at w k)) \<longrightarrow>
      snd (monitor_iterations w cim c n) = None \<and>
      length (filter is_check (fst (monitor_iterations w cim c n))) = n)"
  using monitorStock_returns_iff[of cs rnd ci] monitor_iterations_no_throw[of w cim c n]
  by blast

text \<open>
  A shop that never restocks: \<open>monitorStock\<close> never returns, and \<open>monitor()\<close> is
  still checking after a thousand checks.
\<close>

theorem monitoring_is_unbounded_witness:
  "monitorStock (\<lambda>k. Inr \<lparr>inStock = False\<rparr>) (\<lambda>k. 1 / 2) 5000 = None \<and>
   snd (monitor_iterations never_in_stock_world 30000 0 1000) = None \<and>
   length (filter is_check (fst (monitor_iterations never_in_stock_world 30000 0 1000))) = 1000"
  using monitoring_is_unbounded[of "\<lambda>k. Inr \<lparr>inStock = False\<rparr>" "\<lambda>k. 1 / 2" 5000
      never_in_stock_world 30000 0 1000]
  by (simp add: out_of_stock_def never_in_stock_world_def)

text \<open>
  Claim C3 as stated fails: when the item never comes in stock, \<open>monitorStock\<close>
  with a check interval of 5000 ms never returns; no run ends with a timeout.
\<close>

theorem monitorStock_never_times_out:
  "monitorStock (\<lambda>k. Inr \<lparr>inStock = False\<rparr>) (\<lambda>k. 0) 5000 = None"
  by (rule monitorStock_diverges) (simp add: out_of_stock_def)

text \<open>
  Claim C7, as the code has it. When \<open>checkStock\<close> reports out of stock \<open>n\<close> times
  and then in stock, \<open>monitorStock\<close> waits exactly \<open>n\<close> times, once after each
  out-of-stock report, and returns the in-stock status; each delay lies in
  \<open>[checkInterval - 1000, checkInterval + 1000)\<close>. The loop of \<open>monitor()\<close> in
  test-costco.ts also waits once after each of the \<open>n\<close> out-of-stock checks, for the
  fixed \<open>checkIntervalMs\<close>.
\<close>

theorem monitor_waits_after_each_check:
  assumes "\<forall>k. 0 \<le> rnd k \<and> rnd k < 1"
    and "\<forall>j<n. out_of_stock cs j"
    and "cs n = Inr st" and "inStock st"
  shows "(\<exists>ds. monitorStock cs rnd ci = Some (Inr st, ds) \<and> length ds = n \<and>
            (\<forall>d\<in>set ds. ci - 1000 \<le> d \<and> d < ci + 1000)) \<and>
         ((\<forall>k. c < k \<and> k \<le> c + n \<longrightarrow>
              checkStock_at w k = Inr False \<and> waitForTimeout_at w k = Inr ()) \<longrightarrow>
            monitor_iterations w cim c n =
              (concat (map (\<lambda>k. [StockChecked k False, Waited cim]) [Suc c..<Suc (c + n)]), None))"
proof -
  have stop: "\<not> out_of_stock cs n" using assms(3,4) by (simp add: out_of_stock_def)
  let ?ds = "map (\<lambda>j. ci + (rnd j * 2000 - 1000)) [0..<n]"
  have run: "monitorStock cs rnd ci = Some (Inr st, ?ds)"
    using monitorStock_first[OF stop assms(2), of rnd ci] assms(3) by simp
  have bounds: "\<forall>d\<in>set ?ds. ci - 1000 \<le> d \<and> d < ci + 1000"
  proof
    fix d assume "d \<in> set ?ds"
    then obtain j where d: "d = ci + (rnd j * 2000 - 1000)" by auto
    have "0 \<le> rnd j" "rnd j < 1" using assms(1) by simp_all
    then show "ci - 1000 \<le> d \<and> d < ci + 1000" unfolding d by simp
  qed
  have "\<exists>ds. monitorStock cs rnd ci = Some (Inr st, ds) \<and> length ds = n \<and>
            (\<forall>d\<in>set ds. ci - 1000 \<le> d \<and> d < ci + 1000)"
    using run bounds by (intro exI[of _ ?ds]) simp
  then show ?thesis using monitor_iterations_out_of_stock[of c n w cim] by blast
qed

text \<open>
  Three out-of-stock reports, then in stock: three waits in both loops.
\<close>

theorem monitor_waits_after_each_check_witness:
  "(0::real) \<le> 1 / 2 \<and> (1::real) / 2 < 1 \<and>
   out_of_stock (\<lambda>k. Inr \<lparr>inStock = (3 \<le> k)\<rparr>) 2 \<and>
   (\<exists>ds. monitorStock (\<lambda>k. Inr \<lparr>inStock = (3 \<le> k)\<rparr>) (\<lambda>k. 1 / 2) 5000 =
            Some (Inr \<lparr>inStock = True\<rparr>, ds) \<and> length ds = 3) \<and>
   monitor_iterations (restock_world 3) 30000 0 3 =
     ([StockChecked 1 False, Waited 30000, StockChecked 2 False, Waited 30000,
       StockChecked 3 False, Waited 30000], None)"
proof -
  have a: "\<forall>k::nat. (0::real) \<le> 1 / 2 \<and> (1::real) / 2 < 1" by simp
  have b: "\<forall>j<3. out_of_stock (\<lambda>k. Inr \<lparr>inStock = (3 \<le> k)\<rparr>) j"
    by (simp add: out_of_stock_def)
  have c: "(\<lambda>k::nat. Inr \<lparr>inStock = (3 \<le> k)\<rparr> :: Error + StockStatus) 3 =
      Inr \<lparr>inStock = True\<rparr>"
    by simp
  have d: "inStock \<lparr>inStock = True\<rparr>" by simp
  have e: "[Suc 0..<4] = [1, 2, 3]" by (simp add: upt_rec)
  show ?thesis
    using monitor_waits_after_each_check[OF a b c d, of 5000 0 "restock_world 3" 30000]
    by (auto simp: out_of_stock_def restock_world_def e)
qed

text \<open>
  Claim C7 as stated fails: after three out-of-stock reports \<open>monitorStock\<close> has
  waited three times, not twice, and \<open>monitor()\<close> has waited three times for the same
  30000 ms.
\<close>

theorem monitor_waits_three_times:
  "monitorStock (\<lambda>k. Inr \<lparr>inStock = (3 \<le> k)\<rparr>) (\<lambda>k. 1 / 2) 5000 =
     Some (Inr \<lparr>inStock = True\<rparr>, [5000, 5000, 5000]) \<and>
   monitor_iterations (restock_world 3) 30000 0 3 =
     ([StockChecked 1 False, Waited 30000, StockChecked 2 False, Waited 30000,
       StockChecked 3 False, Waited 30000], None)"
proof -
  have a: "\<not> out_of_stock (\<lambda>k. Inr \<lparr>inStock = (3 \<le> k)\<rparr>) 3" by (simp add: out_of_stock_def)
  have b: "\<forall>j<3. out_of_stock (\<lambda>k. Inr \<lparr>inStock = (3 \<le> k)\<rparr>) j"
    by (simp add: out_of_stock_def)
  have "monitorStock (\<lambda>k. Inr \<lparr>inStock = (3 \<le> k)\<rparr>) (\<lambda>k. 1 / 2) 5000 =
     Some (Inr \<lparr>inStock = True\<rparr>, [5000, 5000, 5000])"
    using monitorStock_first[OF a b, of "\<lambda>k. 1 / 2" 5000] by (simp add: upt_rec)
  moreover have "monitor_iterations (restock_world 3) 30000 0 3 =
     ([StockChecked 1 False, Waited 30000, StockChecked 2 False, Waited 30000,
       StockChecked 3 False, Waited 30000], None)"
    by (simp add: numeral_3_eq_3 monitor_iteration_def restock_world_def)
  ultimately show ?thesis by simp
qed

section \<open>Properties of notify\<close>

text \<open>
  Claim C8, as the code has it. \<open>notify\<close> never throws: with no webhook it logs the
  message, sends nothing and returns at once; when the request fails, the failure is
  swallowed: it is logged on the console and \<open>notify\<close> returns normally. It is not
  fire-and-forget: it awaits the request, so it returns only when the request has
  settled, after as long as that took, and never when the request never settles. A
  caller that awaits it, as the in-stock branch of the monitoring loop does before its
  screenshot and add-to-cart, does not go on until then.
\<close>

theorem notify_awaits_request:
  "(\<forall>e. notify discordWebhook fetch message urgent \<noteq> Some (Inl e)) \<and>
   (discordWebhook = [] \<longrightarrow>
      notify discordWebhook fetch message urgent =
        Some (Inr \<lparr>console = [console_log (megaphone @ '' '' @ message)], requests = [],
                   suspended_ms = 0\<rparr>)) \<and>
   (\<forall>t r. discordWebhook \<noteq> [] \<and>
       fetch \<lparr>url = discordWebhook, http_method = ''POST'',
              content = (if urgent then ''@everyone '' @ siren @ '' '' @ message else message)\<rparr> =
         Settles t r \<longrightarrow>
       notify discordWebhook fetch message urgent =
         Some (Inr \<lparr>console = console_log (megaphone @ '' '' @ message) #
                       (if isl r then [console_error ''Failed to send Discord notification'']
                        else []),
                    requests = [\<lparr>url = discordWebhook, http_method = ''POST'',
                                 content = (if urgent then ''@everyone '' @ siren @ '' '' @ message
                                            else message)\<rparr>],
                    suspended_ms = t\<rparr>)) \<and>
   (discordWebhook \<noteq> [] \<and>
       fetch \<lparr>url = discordWebhook, http_method = ''POST'',
              content = (if urgent then ''@everyone '' @ siren @ '' '' @ message else message)\<rparr> =
         NeverSettles \<longrightarrow>
       notify discordWebhook fetch message urgent = None \<and>
       in_stock_branch_after_notify (notify discordWebhook fetch message urgent) w k = None)"
proof -
  let ?req = "\<lparr>url = discordWebhook, http_method = ''POST'',
              content = (if urgent then ''@everyone '' @ siren @ '' '' @ message else message)\<rparr>"
  have a: "notify discordWebhook fetch message urgent \<noteq> Some (Inl e)" for e
    by (cases "fetch ?req") (auto simp: notify_def Let_def split: sum.splits)
  have b: "notify discordWebhook fetch message urgent =
        Some (Inr \<lparr>console = [console_log (megaphone @ '' '' @ message)], requests = [],
                   suspended_ms = 0\<rparr>)" if "discordWebhook = []"
    using that by (simp add: notify_def)
  have c: "notify discordWebhook fetch message urgent =
         Some (Inr \<lparr>console = console_log (megaphone @ '' '' @ message) #
                       (if isl r then [console_error ''Failed to send Discord notification'']
                        else []),
                    requests = [?req], suspended_ms = t\<rparr>)"
    if "discordWebhook \<noteq> []" "fetch ?req = Settles t r" for t r
    using that by (cases r) (simp_all add: notify_def Let_def)
  have d: "notify discordWebhook fetch message urgent = None \<and>
       in_stock_branch_after_notify (notify discordWebhook fetch message urgent) w k = None"
    if "discordWebhook \<noteq> []" "fetch ?req = NeverSettles"
    using that by (simp add: notify_def Let_def in_stock_branch_after_notify_def)
  from a b c d show ?thesis by blast
qed

text \<open>
  No webhook configured, and a webhook whose request is refused after 40 ms.
\<close>

theorem notify_awaits_request_witness:
  "notify [] (\<lambda>req. NeverSettles) ''hello'' False =
     Some (Inr \<lparr>console = [console_log (megaphone @ '' hello'')], requests = [],
                suspended_ms = 0\<rparr>) \<and>
   notify ''https://discord.example/hook'' (\<lambda>req. Settles 40 (Inl (Error ''ECONNREFUSED'')))
       ''hello'' False =
     Some (Inr \<lparr>console = [console_log (megaphone @ '' hello''),
                            console_error ''Failed to send Discord notification''],
                requests = [\<lparr>url = ''https://discord.example/hook'', http_method = ''POST'',
                             content = ''hello''\<rparr>],
                suspended_ms = 40\<rparr>)"
  using notify_awaits_request[of "[]" "\<lambda>req. NeverSettles" "''hello''" False]
    notify_awaits_request[of "''https://discord.example/hook''"
      "\<lambda>req. Settles 40 (Inl (Error ''ECONNREFUSED''))" "''hello''" False]
  by simp

text \<open>
  Claim C8 as stated fails: a request that fails only after 30 seconds keeps
  \<open>notify\<close>, and the caller awaiting it, suspended for those 30 seconds; and when the
  request never settles, \<open>notify\<close> never returns and the in-stock branch never reaches
  its add-to-cart.
\<close>

theorem notify_blocks_caller:
  "notify ''https://discord.example/hook'' (\<lambda>req. Settles 30000 (Inl (Error ''ETIMEDOUT'')))
       ''hello'' False =
     Some (Inr \<lparr>console = [console_log (megaphone @ '' hello''),
                            console_error ''Failed to send Discord notification''],
                requests = [\<lparr>url = ''https://discord.example/hook'', http_method = ''POST'',
                             content = ''hello''\<rparr>],
                suspended_ms = 30000\<rparr>) \<and>
   notify ''https://discord.example/hook'' (\<lambda>req. NeverSettles) ''ITEM IN STOCK!'' True = None \<and>
   in_stock_branch_after_notify
     (notify ''https://discord.example/hook'' (\<lambda>req. NeverSettles) ''ITEM IN STOCK!'' True)
     (restock_world 0) 1 = None"
  by (simp add: notify_def in_stock_branch_after_notify_def)

section \<open>Properties of the MCP server\<close>

lemma clamp_Fin: "Math_min (Math_max (Fin s) (Fin 1)) (Fin 30) = Fin (min (max s 1) 30)"
  by simp

text \<open>
  Outside the numbers: a missing \<open>seconds\<close> converts to \<open>NaN\<close>, which
  \<open>Math.max\<close> and \<open>Math.min\<close> pass on.
\<close>

lemma wait_seconds_missing:
  "args ''seconds'' = None \<Longrightarrow> wait_seconds rt args = NaN"
  by (simp add: wait_seconds_def arg_of_def)



text \<open>
  Claim C10. While no page is open (as in the initial state, before \<open>launch_browser\<close>),
  each of the seven page tools fails with the error of \<open>getPage\<close> and leaves the state
  unchanged, and the request handler answers it with \<open>isError: true\<close>. The handler
  turns every error thrown by \<open>handleToolCall\<close> into such an answer carrying the
  error's message.
\<close>

theorem page_tools_need_browser:
  "(tool \<in> {''screenshot'', ''navigate'', ''click'', ''type_text'', ''scroll'',
             ''get_page_info'', ''check_element''} \<and> page_var st = None \<longrightarrow>
      handleToolCall rt tool args st =
        (Inl (Error ''Browser not launched. Call launchBrowser() first.''), st, []) \<and>
      fst (handler rt \<lparr>name = tool, arguments = Some args\<rparr> st) =
        \<lparr>text_of = JObj [(''error'', JStr ''Browser not launched. Call launchBrowser() first.'')],
         isError = True\<rparr>) \<and>
   (\<forall>msg. fst (handleToolCall rt (name request)
                  (case arguments request of None \<Rightarrow> Map.empty | Some a \<Rightarrow> a) st') =
              Inl (Error msg) \<longrightarrow>
      fst (handler rt request st') =
        \<lparr>text_of = JObj [(''error'', JStr msg)], isError = True\<rparr>) \<and>
   page_var initial_state = None"
proof -
  have a: "handleToolCall rt tool args st =
        (Inl (Error ''Browser not launched. Call launchBrowser() first.''), st, [])"
    if "tool \<in> {''screenshot'', ''navigate'', ''click'', ''type_text'', ''scroll'',
             ''get_page_info'', ''check_element''}" "page_var st = None"
    using that by (auto simp: handleToolCall_def page_tool_def page_tool_try_def getPage_def)
  have b: "fst (handler rt rq s) = \<lparr>text_of = JObj [(''error'', JStr msg)], isError = True\<rparr>"
    if "fst (handleToolCall rt (name rq)
                  (case arguments rq of None \<Rightarrow> Map.empty | Some a \<Rightarrow> a) s) = Inl (Error msg)"
    for rq s msg
    using that by (auto simp: handler_def split: prod.splits sum.splits Error.splits)
  have c: "fst (handler rt \<lparr>name = tool, arguments = Some args\<rparr> st) =
        \<lparr>text_of = JObj [(''error'', JStr ''Browser not launched. Call launchBrowser() first.'')],
         isError = True\<rparr>"
    if "tool \<in> {''screenshot'', ''navigate'', ''click'', ''type_text'', ''scroll'',
             ''get_page_info'', ''check_element''}" "page_var st = None"
    by (rule b) (simp add: a[OF that])
  show ?thesis using a b c by (simp add: initial_state_def)
qed

text \<open>
  \<open>click\<close> before \<open>launch_browser\<close>.
\<close>

theorem page_tools_need_browser_witness:
  "page_var initial_state = None \<and>
   handleToolCall runtime_fixture ''click'' [''selector'' \<mapsto> JStr ''#add-to-cart-btn''] initial_state =
     (Inl (Error ''Browser not launched. Call launchBrowser() first.''), initial_state, []) \<and>
   fst (handler runtime_fixture
          \<lparr>name = ''click'', arguments = Some [''selector'' \<mapsto> JStr ''#add-to-cart-btn'']\<rparr>
          initial_state) =
     \<lparr>text_of = JObj [(''error'', JStr ''Browser not launched. Call launchBrowser() first.'')],
      isError = True\<rparr>"
  using page_tools_need_browser[of "''click''" initial_state runtime_fixture
      "[''selector'' \<mapsto> JStr ''#add-to-cart-btn'']"]
  by (simp add: initial_state_def)

end
